theory Spec2Isabelle
  imports Complex_Main
begin

section \<open>Data model of \<open>vq2d/metrics/tracking_metrics.py\<close>\<close>

text \<open>
  The module computes the percentage of ground-truth frames that one selected prediction
  per video recovers, for a list of IoU thresholds. The two data frames are lists of rows;
  the position of a row in the list is its index label (both frames carry the default
  range index where the code reads it). NumPy's float64 values are modelled as reals.

  \<open>ResponseTrack\<close> and the two functions imported from \<open>.utils\<close> are not part of
  the module. They are taken as parameters, collected in one record: the attribute
  \<open>length\<close> and \<open>score\<close> of a track, \<open>spatio_temporal_iou\<close> (one scalar per
  candidate track) and \<open>spatio_temporal_iou_matches\<close> (one dictionary from frame
  number to IoU per candidate track, as an association list).

  NumPy's \<open>argsort\<close> is a parameter as well. Line 134 calls it with the default sort
  kind, which is not stable: where values are equal, the order of their indices is the
  library's choice and may change with the length and content of the array. Nothing is
  assumed about that choice; what the library does promise is \<open>is_argsort\<close> below.
\<close>

record 't collaborators =
  track_length :: "'t \<Rightarrow> int"
  track_score :: "'t \<Rightarrow> real"
  spatio_temporal_iou :: "'t \<Rightarrow> 't list \<Rightarrow> real list"
  spatio_temporal_iou_matches :: "'t \<Rightarrow> 't list \<Rightarrow> (nat \<times> real) list list"
  argsort :: "real list \<Rightarrow> nat list"

text \<open>A row of the ground-truth frame, and a row of the prediction frame (one more column).\<close>

record 't gt_row =
  video_id :: int
  response_track :: 't

record 't pred_row = "'t gt_row" +
  score :: real

text \<open>
  The exceptions that can leave the module: the \<open>KeyError\<close> of \<open>get_group\<close> and the
  \<open>IndexError\<close> of the subscript \<open>[0]\<close> on what a collaborator returned.
\<close>

datatype error = KeyError int | IndexError

text \<open>
  The two strings that the assertion on \<open>mode\<close> lets through. Every other string stops
  at the assertion, before anything is computed.
\<close>

datatype mode = take_max_stiou | take_max_score

text \<open>The four arrays of shape (thresholds, predictions) that the scoring loop fills.\<close>

record stats =
  st_iou :: "real list list"
  iou_sum :: "real list list"
  track_acc_count :: "real list list"
  track_total_count :: "real list list"

text \<open>The three lists of lists, one list per threshold, that the selection loop appends to.\<close>

record final =
  final_iou_sum :: "real list list"
  final_track_acc_count :: "real list list"
  final_track_total_count :: "real list list"

section \<open>The operations of NumPy and pandas that the code uses\<close>

text \<open>\<open>np.zeros((r, c))\<close> and the assignment \<open>a[t, i] = v\<close>.\<close>

definition zeros2 :: "nat \<Rightarrow> nat \<Rightarrow> real list list" where
  "zeros2 r c = replicate r (replicate c 0)"

definition set2 :: "real list list \<Rightarrow> nat \<Rightarrow> nat \<Rightarrow> real \<Rightarrow> real list list" where
  "set2 a t i v = a[t := (a ! t)[i := v]]"

text \<open>\<open>a[t].append(v)\<close> on a list of lists.\<close>

definition append_at :: "real list list \<Rightarrow> nat \<Rightarrow> real \<Rightarrow> real list list" where
  "append_at a t v = a[t := a ! t @ [v]]"

text \<open>
  What \<open>values.argsort()\<close> promises: the result lists every index of the array once (as
  many indices as values, and each index among them), and the values read in that order
  ascend. The order among equal values is left open.
\<close>

definition is_argsort :: "(real list \<Rightarrow> nat list) \<Rightarrow> bool" where
  "is_argsort A \<longleftrightarrow>
     (\<forall>xs. length (A xs) = length xs \<and> set (A xs) = {0..<length xs}
            \<and> sorted (map (\<lambda>i. xs ! i) (A xs)))"

text \<open>\<open>values.argmax()\<close>: the index of the first occurrence of the maximum.\<close>

fun argmax :: "real list \<Rightarrow> nat" where
  "argmax [] = 0"
| "argmax [x] = 0"
| "argmax (x # y # ys) =
     (let j = argmax (y # ys) in if x < (y # ys) ! j then Suc j else 0)"

text \<open>
  \<open>groupby("video-id").get_group(v)\<close>: the rows of the frame whose video is \<open>v\<close>, each
  with its index label, in the frame's order; a \<open>KeyError\<close> when there is none.
\<close>

definition get_group ::
  "('t, 'a) gt_row_scheme list \<Rightarrow> int \<Rightarrow> error + (nat \<times> ('t, 'a) gt_row_scheme) list" where
  "get_group df v =
     (case filter (\<lambda>(i, r). video_id r = v) (enumerate 0 df) of
        [] \<Rightarrow> Inl (KeyError v)
      | g # gs \<Rightarrow> Inr (g # gs))"

text \<open>The subscript \<open>[0]\<close>.\<close>

definition first :: "'a list \<Rightarrow> error + 'a" where
  "first xs = (case xs of [] \<Rightarrow> Inl IndexError | x # _ \<Rightarrow> Inr x)"

section \<open>\<open>compute_tracking_metrics\<close>\<close>

text \<open>
  Lines 133 to 135: the ascending argsort of the scores, reversed, and the rows of the
  frame taken in that order. The indices of an argsort are labels of the frame
  (\<open>is_argsort\<close>), so \<open>loc\<close> finds each of them.
\<close>

definition sort_idx :: "'t collaborators \<Rightarrow> 't pred_row list \<Rightarrow> nat list" where
  "sort_idx K prediction = rev (argsort K (map score prediction))"

definition sort_predictions :: "'t collaborators \<Rightarrow> 't pred_row list \<Rightarrow> 't pred_row list" where
  "sort_predictions K prediction = map (\<lambda>i. prediction ! i) (sort_idx K prediction)"

text \<open>Lines 169 to 177: the loop over the thresholds for the prediction at \<open>idx\<close>.\<close>

fun threshold_loop ::
  "real list \<Rightarrow> nat \<Rightarrow> nat \<Rightarrow> real \<Rightarrow> real list \<Rightarrow> real \<Rightarrow> stats \<Rightarrow> stats" where
  "threshold_loop [] tidx idx stiou_arr stiou_values len st = st"
| "threshold_loop (iou_thr # rest) tidx idx stiou_arr stiou_values len st =
     (let masked = filter (\<lambda>v. iou_thr \<le> v) stiou_values;
          t_sum = real (length masked);
          i_sum = sum_list masked
      in threshold_loop rest (Suc tidx) idx stiou_arr stiou_values len
           (st\<lparr>st_iou := set2 (st_iou st) tidx idx stiou_arr,
               iou_sum := set2 (iou_sum st) tidx idx i_sum,
               track_acc_count := set2 (track_acc_count st) tidx idx t_sum,
               track_total_count := set2 (track_total_count st) tidx idx len\<rparr>))"

text \<open>
  Lines 150 to 177 for one prediction: a prediction whose video has no ground truth is
  skipped (the \<open>except\<close> branch); otherwise the collaborators are asked about the
  prediction and the ground truths of its video, and the first answer is used. A group
  that \<open>get_group\<close> returns has at least one row, so \<open>values[0]\<close> of line 177, the
  \<open>hd\<close> below, is always in range.
\<close>

definition score_prediction ::
  "'t collaborators \<Rightarrow> 't gt_row list \<Rightarrow> real list \<Rightarrow> nat \<Rightarrow> 't pred_row \<Rightarrow> stats
     \<Rightarrow> error + stats" where
  "score_prediction K ground_truth iou_thresholds idx this_pred st =
     (case get_group ground_truth (video_id this_pred) of
        Inl e \<Rightarrow> Inr st
      | Inr ground_truth_videoid \<Rightarrow>
          (let this_gt = map (\<lambda>(i, r). response_track r) ground_truth_videoid in
           case first (spatio_temporal_iou K (response_track this_pred) this_gt) of
             Inl e \<Rightarrow> Inl e
           | Inr stiou_arr \<Rightarrow>
               (case first (spatio_temporal_iou_matches K (response_track this_pred) this_gt) of
                  Inl e \<Rightarrow> Inl e
                | Inr stiou_matches \<Rightarrow>
                    Inr (threshold_loop iou_thresholds 0 idx stiou_arr (map snd stiou_matches)
                           (real_of_int (track_length K (hd this_gt))) st))))"

text \<open>Lines 150 to 177: the loop over the sorted predictions, \<open>idx\<close> counting the rows.\<close>

fun scoring_pass ::
  "'t collaborators \<Rightarrow> 't gt_row list \<Rightarrow> real list \<Rightarrow> nat \<Rightarrow> 't pred_row list \<Rightarrow> stats
     \<Rightarrow> error + stats" where
  "scoring_pass K ground_truth iou_thresholds idx [] st = Inr st"
| "scoring_pass K ground_truth iou_thresholds idx (this_pred # rest) st =
     (case score_prediction K ground_truth iou_thresholds idx this_pred st of
        Inl e \<Rightarrow> Inl e
      | Inr st' \<Rightarrow> scoring_pass K ground_truth iou_thresholds (Suc idx) rest st')"

text \<open>Lines 190 to 194: the index, in the sorted frame, of the prediction that is kept.\<close>

definition select_max_idx :: "mode \<Rightarrow> real list list \<Rightarrow> nat \<Rightarrow> real list \<Rightarrow> nat list \<Rightarrow> nat" where
  "select_max_idx m st_iou_arr tidx scores pred_idxs =
     (let max_idx = (case m of
                       take_max_stiou \<Rightarrow> argmax (map (\<lambda>i. st_iou_arr ! tidx ! i) pred_idxs)
                     | take_max_score \<Rightarrow> argmax scores)
      in pred_idxs ! max_idx)"

text \<open>Lines 188 to 197: the loop over the thresholds for one ground-truth row.\<close>

fun winner_loop ::
  "mode \<Rightarrow> stats \<Rightarrow> real list \<Rightarrow> nat list \<Rightarrow> real list \<Rightarrow> nat \<Rightarrow> final \<Rightarrow> final" where
  "winner_loop m st scores pred_idxs [] tidx fin = fin"
| "winner_loop m st scores pred_idxs (iou_thr # rest) tidx fin =
     (let max_idx = select_max_idx m (st_iou st) tidx scores pred_idxs
      in winner_loop m st scores pred_idxs rest (Suc tidx)
           (fin\<lparr>final_iou_sum :=
                   append_at (final_iou_sum fin) tidx (iou_sum st ! tidx ! max_idx),
                final_track_acc_count :=
                   append_at (final_track_acc_count fin) tidx (track_acc_count st ! tidx ! max_idx),
                final_track_total_count :=
                   append_at (final_track_total_count fin) tidx
                     (track_total_count st ! tidx ! max_idx)\<rparr>))"

text \<open>
  Lines 185 to 197: the loop over the ground-truth rows. \<open>get_group\<close> on the predictions
  is not guarded here: a video without predictions raises.
\<close>

fun selection_pass ::
  "mode \<Rightarrow> stats \<Rightarrow> 't pred_row list \<Rightarrow> real list \<Rightarrow> 't gt_row list \<Rightarrow> final
     \<Rightarrow> error + final" where
  "selection_pass m st prediction iou_thresholds [] fin = Inr fin"
| "selection_pass m st prediction iou_thresholds (this_gt # rest) fin =
     (case get_group prediction (video_id this_gt) of
        Inl e \<Rightarrow> Inl e
      | Inr prediction_videoid \<Rightarrow>
          selection_pass m st prediction iou_thresholds rest
            (winner_loop m st (map (\<lambda>(i, r). score r) prediction_videoid)
               (map fst prediction_videoid) iou_thresholds 0 fin))"

text \<open>Lines 199 to 204: the percentage per threshold; a slot stays 0 when no frame counts.\<close>

fun robustness_loop :: "final \<Rightarrow> real list \<Rightarrow> nat \<Rightarrow> real list \<Rightarrow> real list" where
  "robustness_loop fin [] tidx robustness = robustness"
| "robustness_loop fin (iou_thr # rest) tidx robustness =
     (let acc = final_track_acc_count fin ! tidx;
          total = final_track_total_count fin ! tidx
      in robustness_loop fin rest (Suc tidx)
           (if 0 < sum_list total
            then robustness[tidx := 100 * sum_list acc / sum_list total]
            else robustness))"

definition initial_stats :: "nat \<Rightarrow> nat \<Rightarrow> stats" where
  "initial_stats r c =
     \<lparr>st_iou = zeros2 r c, iou_sum = zeros2 r c,
      track_acc_count = zeros2 r c, track_total_count = zeros2 r c\<rparr>"

definition initial_final :: "nat \<Rightarrow> final" where
  "initial_final r =
     \<lparr>final_iou_sum = replicate r [], final_track_acc_count = replicate r [],
      final_track_total_count = replicate r []\<rparr>"

text \<open>
  Lines 137 to 206: what the function does with the frame that line 135 has put in order.
  \<open>robustness\<close> is the array of zeros of line 129.
\<close>

definition metrics_of_sorted ::
  "'t collaborators \<Rightarrow> 't gt_row list \<Rightarrow> 't pred_row list \<Rightarrow> real list \<Rightarrow> mode
     \<Rightarrow> error + (string \<times> real list) list" where
  "metrics_of_sorted K ground_truth sorted_prediction iou_thresholds m =
     (let robustness = replicate (length iou_thresholds) 0;
          st0 = initial_stats (length iou_thresholds) (length sorted_prediction)
      in case scoring_pass K ground_truth iou_thresholds 0 sorted_prediction st0 of
           Inl e \<Rightarrow> Inl e
         | Inr st \<Rightarrow>
             (case selection_pass m st sorted_prediction iou_thresholds ground_truth
                     (initial_final (length iou_thresholds)) of
                Inl e \<Rightarrow> Inl e
              | Inr fin \<Rightarrow>
                  Inr [(''% recovery'', robustness_loop fin iou_thresholds 0 robustness)]))"

text \<open>
  The function itself: lines 128 to 135, then the rest. It returns a dictionary with the
  one key \<open>% recovery\<close>.
\<close>

definition compute_tracking_metrics ::
  "'t collaborators \<Rightarrow> 't gt_row list \<Rightarrow> 't pred_row list \<Rightarrow> real list \<Rightarrow> mode
     \<Rightarrow> error + (string \<times> real list) list" where
  "compute_tracking_metrics K ground_truth prediction iou_thresholds m =
     (let robustness = replicate (length iou_thresholds) 0 in
      if prediction = [] then Inr [(''% recovery'', robustness)]
      else metrics_of_sorted K ground_truth (sort_predictions K prediction) iou_thresholds m)"

section \<open>\<open>TrackingMetrics\<close>\<close>

text \<open>
  The class attributes, and the default value of the parameter \<open>iou_thresholds\<close> of
  \<open>compute_tracking_metrics\<close>, \<open>np.linspace(0.5, 0.95, 10)\<close>.
\<close>

definition metric_uuid :: string where
  "metric_uuid = ''Tracking''"

definition iou_thresholds :: "real list" where
  "iou_thresholds = [0.5, 0.75, 0.95]"

definition ious_to_report :: "real list" where
  "ious_to_report = [0.5]"

definition default_iou_thresholds :: "real list" where
  "default_iou_thresholds = map (\<lambda>k. 0.5 + real k * ((0.95 - 0.5) / 9)) [0..<10]"

text \<open>
  The object. The two attributes that \<open>evaluate\<close> creates are \<open>None\<close> before it has
  run. The attribute \<open>ap\<close> is set to \<open>None\<close> by the constructor and never read.
\<close>

record 't TrackingMetrics =
  self_ground_truth :: "'t gt_row list"
  self_prediction :: "'t pred_row list"
  self_mode :: mode
  self_suffix :: string
  self_ignore_iou_averaging :: bool
  self_tracking_metrics :: "(string \<times> real list) list option"
  self_average_tracking_metrics :: "(string \<times> real) list option"

text \<open>Lines 39 to 52 and 54 to 71: the position in the input list is the video.\<close>

definition import_ground_truth :: "'t list \<Rightarrow> 't gt_row list" where
  "import_ground_truth gts =
     map (\<lambda>(i, gt). \<lparr>video_id = int i, response_track = gt\<rparr>) (enumerate 0 gts)"

definition import_prediction :: "'t collaborators \<Rightarrow> 't list list \<Rightarrow> 't pred_row list" where
  "import_prediction K prediction =
     concat (map (\<lambda>(i, preds).
                    map (\<lambda>pred. \<lparr>video_id = int i, response_track = pred,
                                  score = track_score K pred\<rparr>) preds)
               (enumerate 0 prediction))"

text \<open>Lines 21 to 37, the constructor.\<close>

definition init ::
  "'t collaborators \<Rightarrow> 't list \<Rightarrow> 't list list \<Rightarrow> mode \<Rightarrow> bool \<Rightarrow> 't TrackingMetrics" where
  "init K gts prediction m ignore =
     \<lparr>self_ground_truth = import_ground_truth gts,
      self_prediction = import_prediction K prediction,
      self_mode = m,
      self_suffix = (case m of take_max_stiou \<Rightarrow> ''(max iou)'' | take_max_score \<Rightarrow> ''(max scr)''),
      self_ignore_iou_averaging = ignore,
      self_tracking_metrics = None,
      self_average_tracking_metrics = None\<rparr>"

text \<open>\<open>v.mean().item()\<close>.\<close>

definition mean :: "real list \<Rightarrow> real" where
  "mean v = sum_list v / real (length v)"

text \<open>
  Lines 73 to 83: one call of \<open>compute_tracking_metrics\<close>, with the class attribute
  \<open>iou_thresholds\<close>, and the mean of every vector of the dictionary it returns.
\<close>

definition evaluate :: "'t collaborators \<Rightarrow> 't TrackingMetrics \<Rightarrow> error + 't TrackingMetrics" where
  "evaluate K self =
     (case compute_tracking_metrics K (self_ground_truth self) (self_prediction self)
             iou_thresholds (self_mode self) of
        Inl e \<Rightarrow> Inl e
      | Inr d \<Rightarrow>
          Inr (self\<lparr>self_tracking_metrics := Some d,
                    self_average_tracking_metrics := Some (map (\<lambda>(k, v). (k, mean v)) d)\<rparr>))"

section \<open>What the arrays hold\<close>

text \<open>
  The values that the scoring loop writes for one prediction, as functions of the
  prediction: they are what the cells of the four arrays are proved to contain.
  \<open>gt_tracks\<close> is the column \<open>response_track\<close> of the group of a video.
\<close>

definition gt_tracks :: "'t gt_row list \<Rightarrow> int \<Rightarrow> 't list" where
  "gt_tracks ground_truth v = map response_track (filter (\<lambda>r. video_id r = v) ground_truth)"

text \<open>
  \<open>stiou_arr\<close> of line 161 for the prediction, and 0 (the initial value of the cell)
  for a prediction that the loop skips.
\<close>

definition whole_track_iou :: "'t collaborators \<Rightarrow> 't gt_row list \<Rightarrow> 't pred_row \<Rightarrow> real" where
  "whole_track_iou K ground_truth p =
     (case gt_tracks ground_truth (video_id p) of
        [] \<Rightarrow> 0
      | g # gs \<Rightarrow> (case spatio_temporal_iou K (response_track p) (g # gs) of
                     [] \<Rightarrow> 0 | x # _ \<Rightarrow> x))"

text \<open>\<open>stiou_values\<close> of line 170: the values of the first dictionary of matches.\<close>

definition frame_ious :: "'t collaborators \<Rightarrow> 't gt_row list \<Rightarrow> 't pred_row \<Rightarrow> real list" where
  "frame_ious K ground_truth p =
     (case gt_tracks ground_truth (video_id p) of
        [] \<Rightarrow> []
      | g # gs \<Rightarrow> (case spatio_temporal_iou_matches K (response_track p) (g # gs) of
                     [] \<Rightarrow> [] | d # _ \<Rightarrow> map snd d))"

text \<open>\<open>t_sum\<close> and \<open>i_sum\<close> of lines 172 and 173 at one threshold.\<close>

definition accurate_frames ::
  "'t collaborators \<Rightarrow> 't gt_row list \<Rightarrow> real \<Rightarrow> 't pred_row \<Rightarrow> real" where
  "accurate_frames K ground_truth iou_thr p =
     real (length (filter (\<lambda>v. iou_thr \<le> v) (frame_ious K ground_truth p)))"

definition accurate_iou_sum ::
  "'t collaborators \<Rightarrow> 't gt_row list \<Rightarrow> real \<Rightarrow> 't pred_row \<Rightarrow> real" where
  "accurate_iou_sum K ground_truth iou_thr p =
     sum_list (filter (\<lambda>v. iou_thr \<le> v) (frame_ious K ground_truth p))"

text \<open>Line 177: the length of the first ground truth of the prediction's video.\<close>

definition total_frames :: "'t collaborators \<Rightarrow> 't gt_row list \<Rightarrow> 't pred_row \<Rightarrow> real" where
  "total_frames K ground_truth p =
     (case gt_tracks ground_truth (video_id p) of
        [] \<Rightarrow> 0
      | g # gs \<Rightarrow> real_of_int (track_length K g))"

text \<open>The prediction for which a subscript \<open>[0]\<close> of lines 163 or 166 raises.\<close>

definition pred_fails :: "'t collaborators \<Rightarrow> 't gt_row list \<Rightarrow> 't pred_row \<Rightarrow> bool" where
  "pred_fails K ground_truth p =
     (case gt_tracks ground_truth (video_id p) of
        [] \<Rightarrow> False
      | g # gs \<Rightarrow> spatio_temporal_iou K (response_track p) (g # gs) = []
                 \<or> spatio_temporal_iou_matches K (response_track p) (g # gs) = [])"

text \<open>Arrays of the right shape, and the state of the arrays after \<open>k\<close> predictions.\<close>

definition wf2 :: "real list list \<Rightarrow> nat \<Rightarrow> nat \<Rightarrow> bool" where
  "wf2 a r c = (length a = r \<and> (\<forall>row \<in> set a. length row = c))"

definition wf_stats :: "stats \<Rightarrow> nat \<Rightarrow> nat \<Rightarrow> bool" where
  "wf_stats st r c = (wf2 (st_iou st) r c \<and> wf2 (iou_sum st) r c
      \<and> wf2 (track_acc_count st) r c \<and> wf2 (track_total_count st) r c)"

definition scored ::
  "'t collaborators \<Rightarrow> 't gt_row list \<Rightarrow> real list \<Rightarrow> 't pred_row list \<Rightarrow> nat \<Rightarrow> stats \<Rightarrow> bool" where
  "scored K ground_truth ths ps k st \<longleftrightarrow>
     wf_stats st (length ths) (length ps) \<and>
     (\<forall>t < length ths. \<forall>j < length ps.
        st_iou st ! t ! j = (if j < k then whole_track_iou K ground_truth (ps ! j) else 0) \<and>
        iou_sum st ! t ! j = (if j < k then accurate_iou_sum K ground_truth (ths ! t) (ps ! j) else 0) \<and>
        track_acc_count st ! t ! j =
          (if j < k then accurate_frames K ground_truth (ths ! t) (ps ! j) else 0) \<and>
        track_total_count st ! t ! j = (if j < k then total_frames K ground_truth (ps ! j) else 0))"

text \<open>
  The predictions of a video in the order of the frame, the quantity that the mode
  maximises, and the row that lines 186 to 194 keep for a video: the first row of the
  group at which the maximum is reached.
\<close>

definition group_rows :: "'t pred_row list \<Rightarrow> int \<Rightarrow> 't pred_row list" where
  "group_rows ps v = filter (\<lambda>r. video_id r = v) ps"

definition selection_key ::
  "'t collaborators \<Rightarrow> 't gt_row list \<Rightarrow> mode \<Rightarrow> 't pred_row \<Rightarrow> real" where
  "selection_key K ground_truth m =
     (case m of take_max_stiou \<Rightarrow> whole_track_iou K ground_truth | take_max_score \<Rightarrow> score)"

definition winner ::
  "'t collaborators \<Rightarrow> 't gt_row list \<Rightarrow> mode \<Rightarrow> 't pred_row list \<Rightarrow> int \<Rightarrow> 't pred_row" where
  "winner K ground_truth m ps v =
     (let grp = group_rows ps v in grp ! argmax (map (selection_key K ground_truth m) grp))"

text \<open>The video of the first ground-truth row that has no prediction.\<close>

fun first_missing :: "'t pred_row list \<Rightarrow> 't gt_row list \<Rightarrow> int option" where
  "first_missing ps [] = None"
| "first_missing ps (g # gs) =
     (if group_rows ps (video_id g) = [] then Some (video_id g) else first_missing ps gs)"

text \<open>The state of the three lists once the ground-truth rows \<open>gts\<close> are done.\<close>

definition selected ::
  "'t collaborators \<Rightarrow> 't gt_row list \<Rightarrow> mode \<Rightarrow> 't pred_row list \<Rightarrow> real list
     \<Rightarrow> 't gt_row list \<Rightarrow> final \<Rightarrow> bool" where
  "selected K ground_truth m ps ths gts fin \<longleftrightarrow>
     length (final_iou_sum fin) = length ths \<and>
     length (final_track_acc_count fin) = length ths \<and>
     length (final_track_total_count fin) = length ths \<and>
     (\<forall>t < length ths.
        final_iou_sum fin ! t =
          map (\<lambda>g. accurate_iou_sum K ground_truth (ths ! t)
                     (winner K ground_truth m ps (video_id g))) gts \<and>
        final_track_acc_count fin ! t =
          map (\<lambda>g. accurate_frames K ground_truth (ths ! t)
                     (winner K ground_truth m ps (video_id g))) gts \<and>
        final_track_total_count fin ! t =
          map (\<lambda>g. total_frames K ground_truth (winner K ground_truth m ps (video_id g))) gts)"

text \<open>Lines 199 to 204 on the rows kept: the percentage at one threshold.\<close>

definition recovery ::
  "'t collaborators \<Rightarrow> 't gt_row list \<Rightarrow> mode \<Rightarrow> 't pred_row list \<Rightarrow> real \<Rightarrow> real" where
  "recovery K ground_truth m ps iou_thr =
     (let ws = map (\<lambda>g. winner K ground_truth m ps (video_id g)) ground_truth;
          acc = sum_list (map (accurate_frames K ground_truth iou_thr) ws);
          total = sum_list (map (total_frames K ground_truth) ws)
      in if 0 < total then 100 * acc / total else 0)"

section \<open>A collaborator to run the code on\<close>

text \<open>
  One argsort among those that \<open>is_argsort\<close> admits: the one that keeps equal values in
  the order of their indices. On an array of at most 16 values this is what NumPy's
  default kind returns, by insertion sort; on longer arrays NumPy may return another.
\<close>

definition stable_argsort :: "real list \<Rightarrow> nat list" where
  "stable_argsort xs = sort_key (\<lambda>i. xs ! i) [0..<length xs]"

text \<open>
  Tracks are numbers. Every ground truth has 10 frames. Track 1 scores 0.9 and matches 5
  frames at IoU 0.6, with whole-track IoU 0.3; every other track scores 0.3 and matches
  10 frames at IoU 0.8, with whole-track IoU 0.8.
\<close>

definition example_K :: "nat collaborators" where
  "example_K =
     \<lparr>track_length = (\<lambda>t. 10),
      track_score = (\<lambda>t. if t = 1 then 0.9 else 0.3),
      spatio_temporal_iou = (\<lambda>p gts. map (\<lambda>g. if p = 1 then 0.3 else 0.8) gts),
      spatio_temporal_iou_matches =
        (\<lambda>p gts. map (\<lambda>g. if p = 1 then map (\<lambda>f. (f, 0.6)) [0..<5]
                             else map (\<lambda>f. (f, 0.8)) [0..<10]) gts),
      argsort = stable_argsort\<rparr>"

text \<open>Two predictions of video 0 with the same score.\<close>

definition tie_prediction :: "nat pred_row list" where
  "tie_prediction =
     [\<lparr>video_id = 0, response_track = 1, score = 0.5\<rparr>,
      \<lparr>video_id = 0, response_track = 2, score = 0.5\<rparr>]"

section \<open>The loops, one by one\<close>

lemma wf2_zeros2: "wf2 (zeros2 r c) r c"
  by (simp add: wf2_def zeros2_def)

lemma nth_zeros2: "t < r \<Longrightarrow> j < c \<Longrightarrow> zeros2 r c ! t ! j = 0"
  by (simp add: zeros2_def)

lemma wf2_set2:
  assumes "wf2 a r c"
  shows "wf2 (set2 a t i v) r c"
proof (cases "t < length a")
  case True
  with assms show ?thesis
    unfolding wf2_def set2_def by (auto dest!: set_update_subset_insert [THEN subsetD])
next
  case False
  then have "a[t := (a ! t)[i := v]] = a" by (simp add: list_update_beyond)
  with assms show ?thesis by (simp add: set2_def)
qed

lemma nth_set2:
  "wf2 a r c \<Longrightarrow> t' < r \<Longrightarrow> i < c \<Longrightarrow>
     set2 a t i v ! t' ! i' = (if t' = t \<and> i' = i then v else a ! t' ! i')"
  unfolding wf2_def set2_def
  by (cases "t' = t") (auto simp: nth_list_update)

lemma threshold_loop_wf:
  "wf_stats st r c \<Longrightarrow> wf_stats (threshold_loop ths tidx idx a vals len st) r c"
  by (induction ths arbitrary: tidx st) (simp_all add: wf_stats_def wf2_set2 Let_def)

lemma threshold_loop_nth:
  assumes "wf_stats st r c" "idx < c" "t < r" 
  shows "st_iou (threshold_loop ths tidx idx a vals len st) ! t ! j =
           (if j = idx \<and> tidx \<le> t \<and> t < tidx + length ths then a else st_iou st ! t ! j)"
    and "iou_sum (threshold_loop ths tidx idx a vals len st) ! t ! j =
           (if j = idx \<and> tidx \<le> t \<and> t < tidx + length ths
            then sum_list (filter (\<lambda>v. ths ! (t - tidx) \<le> v) vals) else iou_sum st ! t ! j)"
    and "track_acc_count (threshold_loop ths tidx idx a vals len st) ! t ! j =
           (if j = idx \<and> tidx \<le> t \<and> t < tidx + length ths
            then real (length (filter (\<lambda>v. ths ! (t - tidx) \<le> v) vals))
            else track_acc_count st ! t ! j)"
    and "track_total_count (threshold_loop ths tidx idx a vals len st) ! t ! j =
           (if j = idx \<and> tidx \<le> t \<and> t < tidx + length ths then len
            else track_total_count st ! t ! j)"
  using assms
proof (induction ths arbitrary: tidx st)
  case Nil
  { case 1 then show ?case by simp }
  { case 2 then show ?case by simp }
  { case 3 then show ?case by simp }
  { case 4 then show ?case by simp }
next
  case (Cons thr ths)
  { case 1 
    then show ?case 
    by (auto simp: Let_def Cons.IH(1) wf_stats_def wf2_set2 nth_set2 [of _ r c] nth_Cons')
  }
  { case 2 
    then show ?case 
    by (auto simp: Let_def Cons.IH(2) wf_stats_def wf2_set2 nth_set2 [of _ r c] nth_Cons' Suc_diff_le)
  }
  { case 3 
    then show ?case 
    by (auto simp: Let_def Cons.IH(3) wf_stats_def wf2_set2 nth_set2 [of _ r c] nth_Cons' Suc_diff_le)
  }
  { case 4 
    then show ?case 
    by (auto simp: Let_def Cons.IH(4) wf_stats_def wf2_set2 nth_set2 [of _ r c] nth_Cons')
  }
qed

lemma filter_enumerate_snd:
  "map snd (filter (\<lambda>(i, r). P r) (enumerate n xs)) = filter P xs"
  by (induction xs arbitrary: n) auto

lemma filter_enumerate_Nil:
  "filter (\<lambda>(i, r). P r) (enumerate n xs) = [] \<longleftrightarrow> filter P xs = []"
  using filter_enumerate_snd [of P n xs] by (metis map_is_Nil_conv)

lemma get_group_eq:
  "get_group df v =
     (if filter (\<lambda>r. video_id r = v) df = [] then Inl (KeyError v)
      else Inr (filter (\<lambda>(i, r). video_id r = v) (enumerate 0 df)))"
  using filter_enumerate_Nil [of "\<lambda>r. video_id r = v" 0 df]
  by (auto simp: get_group_def split: list.splits)

lemma score_prediction_eq:
  "score_prediction K ground_truth ths idx p st =
     (if gt_tracks ground_truth (video_id p) = [] then Inr st
      else if pred_fails K ground_truth p then Inl IndexError
      else Inr (threshold_loop ths 0 idx (whole_track_iou K ground_truth p)
                  (frame_ious K ground_truth p) (total_frames K ground_truth p) st))"
proof (cases "gt_tracks ground_truth (video_id p) = []")
  case True
  then show ?thesis
    by (simp add: score_prediction_def get_group_eq gt_tracks_def)
next
  case False
  have "map (\<lambda>(i, r). response_track r)
          (filter (\<lambda>(i, r). video_id r = video_id p) (enumerate 0 ground_truth)) =
        map response_track (map snd
          (filter (\<lambda>(i, r). video_id r = video_id p) (enumerate 0 ground_truth)))"
    by (simp add: case_prod_unfold)
  then have g: "map (\<lambda>(i, r). response_track r)
          (filter (\<lambda>(i, r). video_id r = video_id p) (enumerate 0 ground_truth)) =
        gt_tracks ground_truth (video_id p)"
    by (simp only: filter_enumerate_snd gt_tracks_def)
  from False have ne: "filter (\<lambda>r. video_id r = video_id p) ground_truth \<noteq> []"
    by (simp add: gt_tracks_def)
  obtain t ts where ts: "gt_tracks ground_truth (video_id p) = t # ts"
    using False by (cases "gt_tracks ground_truth (video_id p)") auto
  show ?thesis
    using ne
    by (simp add: score_prediction_def get_group_eq g ts first_def pred_fails_def Let_def
        whole_track_iou_def frame_ious_def total_frames_def split: list.splits)
qed

lemma scored_initial: "scored K ground_truth ths ps 0 (initial_stats (length ths) (length ps))"
  by (simp add: scored_def initial_stats_def wf_stats_def wf2_zeros2 nth_zeros2)

lemma scored_step:
  assumes sc: "scored K ground_truth ths ps k st"
    and k: "k < length ps"
    and step: "score_prediction K ground_truth ths k (ps ! k) st = Inr st'"
  shows "scored K ground_truth ths ps (Suc k) st'"
proof (cases "gt_tracks ground_truth (video_id (ps ! k)) = []")
  case True
  with step have "st' = st" by (simp add: score_prediction_eq)
  moreover from True have "whole_track_iou K ground_truth (ps ! k) = 0"
    "accurate_iou_sum K ground_truth thr (ps ! k) = 0"
    "accurate_frames K ground_truth thr (ps ! k) = 0"
    "total_frames K ground_truth (ps ! k) = 0" for thr
    by (simp_all add: whole_track_iou_def accurate_iou_sum_def accurate_frames_def
        total_frames_def frame_ious_def)
  ultimately show ?thesis
    using sc unfolding scored_def by (auto simp: less_Suc_eq)
next
  case False
  with step have st': "st' = threshold_loop ths 0 k (whole_track_iou K ground_truth (ps ! k))
        (frame_ious K ground_truth (ps ! k)) (total_frames K ground_truth (ps ! k)) st"
    by (simp add: score_prediction_eq split: if_splits)
  from sc have wf: "wf_stats st (length ths) (length ps)" by (simp add: scored_def)
  show ?thesis
    unfolding scored_def
  proof (intro conjI allI impI)
    show "wf_stats st' (length ths) (length ps)"
      unfolding st' by (rule threshold_loop_wf [OF wf])
  next
    fix t j assume t: "t < length ths" and j: "j < length ps"
    from sc t j show "st_iou st' ! t ! j = (if j < Suc k then whole_track_iou K ground_truth (ps ! j) else 0)"
      unfolding st' scored_def
      by (auto simp: threshold_loop_nth(1) [OF wf k t] less_Suc_eq)
    from sc t j show "iou_sum st' ! t ! j = (if j < Suc k then accurate_iou_sum K ground_truth (ths ! t) (ps ! j) else 0)"
      unfolding st' scored_def
      by (auto simp: threshold_loop_nth(2) [OF wf k t] less_Suc_eq accurate_iou_sum_def)
    from sc t j show "track_acc_count st' ! t ! j = (if j < Suc k then accurate_frames K ground_truth (ths ! t) (ps ! j) else 0)"
      unfolding st' scored_def
      by (auto simp: threshold_loop_nth(3) [OF wf k t] less_Suc_eq accurate_frames_def)
    from sc t j show "track_total_count st' ! t ! j = (if j < Suc k then total_frames K ground_truth (ps ! j) else 0)"
      unfolding st' scored_def
      by (auto simp: threshold_loop_nth(4) [OF wf k t] less_Suc_eq)
  qed
qed

lemma scoring_pass_scored:
  "scoring_pass K ground_truth ths k rest st = Inr st' \<Longrightarrow> rest = drop k ps \<Longrightarrow>
     scored K ground_truth ths ps k st \<Longrightarrow> scored K ground_truth ths ps (length ps) st'"
proof (induction rest arbitrary: k st)
  case Nil
  then have "length ps \<le> k" by simp
  with Nil show ?case by (auto simp: scored_def)
next
  case (Cons p rest)
  from Cons.prems(2) have k: "k < length ps"
    by (metis drop_all list.distinct(1) not_less)
  with Cons.prems(2) have p: "p = ps ! k" and rest: "rest = drop (Suc k) ps"
    by (simp_all flip: Cons_nth_drop_Suc)
  from Cons.prems(1) obtain st1 where
    s1: "score_prediction K ground_truth ths k p st = Inr st1" and
    s2: "scoring_pass K ground_truth ths (Suc k) rest st1 = Inr st'"
    by (auto split: sum.splits)
  from scored_step [OF Cons.prems(3) k s1 [unfolded p]]
  show ?case by (rule Cons.IH [OF s2 rest])
qed

lemma scoring_pass_Inl:
  "scoring_pass K ground_truth ths k rest st = Inl e \<longleftrightarrow>
     e = IndexError \<and> (\<exists>p \<in> set rest. pred_fails K ground_truth p)"
proof (induction rest arbitrary: k st)
  case Nil
  show ?case by simp
next
  case (Cons p rest)
  have nofail: "gt_tracks ground_truth (video_id p) = [] \<Longrightarrow> \<not> pred_fails K ground_truth p"
    by (simp add: pred_fails_def)
  show ?case
    using nofail by (auto simp: score_prediction_eq Cons.IH)
qed

lemma argmax_less: "xs \<noteq> [] \<Longrightarrow> argmax xs < length xs"
  by (induction xs rule: argmax.induct) (auto simp: Let_def)

lemma enumerate_filter_nth:
  "k < length (filter (\<lambda>(i, r). P r) (enumerate n xs)) \<Longrightarrow>
     fst (filter (\<lambda>(i, r). P r) (enumerate n xs) ! k) - n < length xs \<and>
     n \<le> fst (filter (\<lambda>(i, r). P r) (enumerate n xs) ! k) \<and>
     xs ! (fst (filter (\<lambda>(i, r). P r) (enumerate n xs) ! k) - n) = filter P xs ! k"
proof -
  let ?grp = "filter (\<lambda>(i, r). P r) (enumerate n xs)"
  assume k: "k < length ?grp"
  then have "?grp ! k \<in> set (enumerate n xs)"
    using nth_mem [OF k] by auto
  then have a: "n \<le> fst (?grp ! k)" "fst (?grp ! k) < length xs + n"
    "snd (?grp ! k) = xs ! (fst (?grp ! k) - n)"
    by (auto simp: in_set_enumerate_eq)
  have "snd (?grp ! k) = map snd ?grp ! k" using k by simp
  also have "\<dots> = filter P xs ! k" by (simp only: filter_enumerate_snd)
  finally show ?thesis using a by auto
qed

lemma group_idx:
  assumes "k < length (group_rows ps v)"
  shows "map fst (filter (\<lambda>(i, r). video_id r = v) (enumerate 0 ps)) ! k < length ps"
    and "ps ! (map fst (filter (\<lambda>(i, r). video_id r = v) (enumerate 0 ps)) ! k) = group_rows ps v ! k"
proof -
  let ?grp = "filter (\<lambda>(i, r). video_id r = v) (enumerate 0 ps)"
  have "length ?grp = length (map snd ?grp)" by simp
  also have "\<dots> = length (group_rows ps v)"
    by (simp only: filter_enumerate_snd group_rows_def)
  finally have k: "k < length ?grp" using assms by simp
  from enumerate_filter_nth [OF k] k
  show "map fst ?grp ! k < length ps" "ps ! (map fst ?grp ! k) = group_rows ps v ! k"
    by (simp_all add: group_rows_def)
qed

lemma group_length:
  "length (filter (\<lambda>(i, r). video_id r = v) (enumerate 0 ps)) = length (group_rows ps v)"
proof -
  let ?grp = "filter (\<lambda>(i, r). video_id r = v) (enumerate 0 ps)"
  have "length ?grp = length (map snd ?grp)" by simp
  also have "\<dots> = length (group_rows ps v)"
    by (simp only: filter_enumerate_snd group_rows_def)
  finally show ?thesis .
qed

lemma group_map:
  "map (\<lambda>i. f (ps ! i)) (map fst (filter (\<lambda>(i, r). video_id r = v) (enumerate 0 ps))) =
     map f (group_rows ps v)"
proof (rule nth_equalityI)
  fix k
  assume "k < length (map (\<lambda>i. f (ps ! i))
      (map fst (filter (\<lambda>(i, r). video_id r = v) (enumerate 0 ps))))"
  then have k: "k < length (group_rows ps v)" by (simp add: group_length)
  then have "k < length (map fst (filter (\<lambda>(i, r). video_id r = v) (enumerate 0 ps)))"
    by (simp add: group_length)
  then have "map (\<lambda>i. f (ps ! i))
      (map fst (filter (\<lambda>(i, r). video_id r = v) (enumerate 0 ps))) ! k =
      f (ps ! (map fst (filter (\<lambda>(i, r). video_id r = v) (enumerate 0 ps)) ! k))"
    by (rule nth_map)
  also have "\<dots> = f (group_rows ps v ! k)" by (simp only: group_idx(2) [OF k])
  also have "\<dots> = map f (group_rows ps v) ! k" using k by simp
  finally show "map (\<lambda>i. f (ps ! i))
      (map fst (filter (\<lambda>(i, r). video_id r = v) (enumerate 0 ps))) ! k =
      map f (group_rows ps v) ! k" .
qed (simp add: group_length)

lemma group_scores:
  "map (\<lambda>(i, r). score r) (filter (\<lambda>(i, r). video_id r = v) (enumerate 0 ps)) =
     map score (group_rows ps v)"
proof -
  let ?grp = "filter (\<lambda>(i, r). video_id r = v) (enumerate 0 ps)"
  have "map (\<lambda>(i, r). score r) ?grp = map score (map snd ?grp)"
    by (simp add: case_prod_unfold)
  then show ?thesis by (simp only: filter_enumerate_snd group_rows_def)
qed

lemma select_max_idx_winner:
  assumes sc: "scored K ground_truth ths ps (length ps) st"
    and t: "t < length ths"
    and ne: "group_rows ps v \<noteq> []"
  shows "select_max_idx m (st_iou st) t
           (map (\<lambda>(i, r). score r) (filter (\<lambda>(i, r). video_id r = v) (enumerate 0 ps)))
           (map fst (filter (\<lambda>(i, r). video_id r = v) (enumerate 0 ps))) < length ps" (is "?w < _")
    and "ps ! select_max_idx m (st_iou st) t
           (map (\<lambda>(i, r). score r) (filter (\<lambda>(i, r). video_id r = v) (enumerate 0 ps)))
           (map fst (filter (\<lambda>(i, r). video_id r = v) (enumerate 0 ps))) =
         winner K ground_truth m ps v"
proof -
  let ?idxs = "map fst (filter (\<lambda>(i, r). video_id r = v) (enumerate 0 ps))"
  have "map (\<lambda>i. st_iou st ! t ! i) ?idxs = map (\<lambda>i. whole_track_iou K ground_truth (ps ! i)) ?idxs"
  proof (rule nth_equalityI)
    fix k assume "k < length (map (\<lambda>i. st_iou st ! t ! i) ?idxs)"
    then have k: "k < length (group_rows ps v)" by (simp add: group_length)
    from group_idx(1) [OF k] sc t
    have "st_iou st ! t ! (?idxs ! k) = whole_track_iou K ground_truth (ps ! (?idxs ! k))"
      by (simp add: scored_def)
    then show "map (\<lambda>i. st_iou st ! t ! i) ?idxs ! k =
        map (\<lambda>i. whole_track_iou K ground_truth (ps ! i)) ?idxs ! k"
      using k by (simp add: group_length del: map_map)
  qed simp
  then have keys: "(case m of
        take_max_stiou \<Rightarrow> argmax (map (\<lambda>i. st_iou st ! t ! i) ?idxs)
      | take_max_score \<Rightarrow> argmax (map (\<lambda>(i, r). score r)
            (filter (\<lambda>(i, r). video_id r = v) (enumerate 0 ps)))) =
      argmax (map (selection_key K ground_truth m) (group_rows ps v))" (is "?a = ?b")
    by (cases m) (simp_all add: selection_key_def group_scores group_map del: map_map)
  from ne have "?b < length (group_rows ps v)"
    using argmax_less [of "map (selection_key K ground_truth m) (group_rows ps v)"] by simp
  from group_idx [OF this]
  show "?w < length ps" "ps ! ?w = winner K ground_truth m ps v"
    unfolding select_max_idx_def Let_def keys winner_def by simp_all
qed

lemma append_at_length: "length (append_at a t v) = length a"
  by (simp add: append_at_def)

lemma append_at_nth:
  "t' < length a \<Longrightarrow> append_at a t v ! t' = (if t' = t then a ! t' @ [v] else a ! t')"
  by (simp add: append_at_def nth_list_update)

lemma winner_loop_length:
  "length (final_iou_sum (winner_loop m st sc idxs ths tidx fin)) = length (final_iou_sum fin)"
  "length (final_track_acc_count (winner_loop m st sc idxs ths tidx fin)) =
     length (final_track_acc_count fin)"
  "length (final_track_total_count (winner_loop m st sc idxs ths tidx fin)) =
     length (final_track_total_count fin)"
  by (induction ths arbitrary: tidx fin; simp add: Let_def append_at_length)+

lemma winner_loop_nth:
  "t < length (final_iou_sum fin) \<Longrightarrow>
     final_iou_sum (winner_loop m st sc idxs ths tidx fin) ! t =
       (if tidx \<le> t \<and> t < tidx + length ths
        then final_iou_sum fin ! t @ [iou_sum st ! t ! select_max_idx m (st_iou st) t sc idxs]
        else final_iou_sum fin ! t)"
  "t < length (final_track_acc_count fin) \<Longrightarrow>
     final_track_acc_count (winner_loop m st sc idxs ths tidx fin) ! t =
       (if tidx \<le> t \<and> t < tidx + length ths
        then final_track_acc_count fin ! t
               @ [track_acc_count st ! t ! select_max_idx m (st_iou st) t sc idxs]
        else final_track_acc_count fin ! t)"
  "t < length (final_track_total_count fin) \<Longrightarrow>
     final_track_total_count (winner_loop m st sc idxs ths tidx fin) ! t =
       (if tidx \<le> t \<and> t < tidx + length ths
        then final_track_total_count fin ! t
               @ [track_total_count st ! t ! select_max_idx m (st_iou st) t sc idxs]
        else final_track_total_count fin ! t)"
  by (induction ths arbitrary: tidx fin;
      auto simp: Let_def append_at_length append_at_nth)+

lemma selected_initial: "selected K ground_truth m ps ths [] (initial_final (length ths))"
  by (simp add: selected_def initial_final_def)

lemma selected_step:
  assumes sc: "scored K ground_truth ths ps (length ps) st"
    and sel: "selected K ground_truth m ps ths gts fin"
    and ne: "group_rows ps (video_id g) \<noteq> []"
  shows "selected K ground_truth m ps ths (gts @ [g])
           (winner_loop m st
              (map (\<lambda>(i, r). score r)
                 (filter (\<lambda>(i, r). video_id r = video_id g) (enumerate 0 ps)))
              (map fst (filter (\<lambda>(i, r). video_id r = video_id g) (enumerate 0 ps)))
              ths 0 fin)"
  unfolding selected_def
proof (intro conjI allI impI)
  fix t assume t: "t < length ths"
  let ?w = "select_max_idx m (st_iou st) t
              (map (\<lambda>(i, r). score r)
                 (filter (\<lambda>(i, r). video_id r = video_id g) (enumerate 0 ps)))
              (map fst (filter (\<lambda>(i, r). video_id r = video_id g) (enumerate 0 ps)))"
  from select_max_idx_winner [OF sc t ne, of m]
  have w: "?w < length ps" "ps ! ?w = winner K ground_truth m ps (video_id g)"
    by simp_all
  from sc t w have cells:
    "iou_sum st ! t ! ?w =
       accurate_iou_sum K ground_truth (ths ! t) (winner K ground_truth m ps (video_id g))"
    "track_acc_count st ! t ! ?w =
       accurate_frames K ground_truth (ths ! t) (winner K ground_truth m ps (video_id g))"
    "track_total_count st ! t ! ?w =
       total_frames K ground_truth (winner K ground_truth m ps (video_id g))"
    by (simp_all add: scored_def)
  from sel t show
    "final_iou_sum (winner_loop m st
              (map (\<lambda>(i, r). score r)
                 (filter (\<lambda>(i, r). video_id r = video_id g) (enumerate 0 ps)))
              (map fst (filter (\<lambda>(i, r). video_id r = video_id g) (enumerate 0 ps)))
              ths 0 fin) ! t =
          map (\<lambda>g. accurate_iou_sum K ground_truth (ths ! t)
                     (winner K ground_truth m ps (video_id g))) (gts @ [g])"
    by (simp add: selected_def winner_loop_nth(1) cells(1))
  from sel t show
    "final_track_acc_count (winner_loop m st
              (map (\<lambda>(i, r). score r)
                 (filter (\<lambda>(i, r). video_id r = video_id g) (enumerate 0 ps)))
              (map fst (filter (\<lambda>(i, r). video_id r = video_id g) (enumerate 0 ps)))
              ths 0 fin) ! t =
          map (\<lambda>g. accurate_frames K ground_truth (ths ! t)
                     (winner K ground_truth m ps (video_id g))) (gts @ [g])"
    by (simp add: selected_def winner_loop_nth(2) cells(2))
  from sel t show
    "final_track_total_count (winner_loop m st
              (map (\<lambda>(i, r). score r)
                 (filter (\<lambda>(i, r). video_id r = video_id g) (enumerate 0 ps)))
              (map fst (filter (\<lambda>(i, r). video_id r = video_id g) (enumerate 0 ps)))
              ths 0 fin) ! t =
          map (\<lambda>g. total_frames K ground_truth (winner K ground_truth m ps (video_id g)))
            (gts @ [g])"
    by (simp add: selected_def winner_loop_nth(3) cells(3))
qed (use sel in \<open>simp_all add: selected_def winner_loop_length\<close>)

lemma selection_pass_eq:
  "scored K ground_truth ths ps (length ps) st \<Longrightarrow> selected K ground_truth m ps ths gts fin \<Longrightarrow>
     (case selection_pass m st ps ths rest fin of
        Inl e \<Rightarrow> first_missing ps rest = Some (case e of KeyError v \<Rightarrow> v | IndexError \<Rightarrow> 0)
                 \<and> e \<noteq> IndexError
      | Inr fin' \<Rightarrow> first_missing ps rest = None
                 \<and> selected K ground_truth m ps ths (gts @ rest) fin')"
proof (induction rest arbitrary: gts fin)
  case Nil
  then show ?case by simp
next
  case (Cons g rest)
  show ?case
  proof (cases "group_rows ps (video_id g) = []")
    case True
    then show ?thesis
      by (simp add: get_group_eq group_rows_def)
  next
    case False
    from Cons.IH [OF Cons.prems(1) selected_step [OF Cons.prems(1) Cons.prems(2) False]]
    have ih: "case selection_pass m st ps ths rest
           (winner_loop m st
              (map (\<lambda>(i, r). score r)
                 (filter (\<lambda>(i, r). video_id r = video_id g) (enumerate 0 ps)))
              (map fst (filter (\<lambda>(i, r). video_id r = video_id g) (enumerate 0 ps)))
              ths 0 fin) of
        Inl e \<Rightarrow> first_missing ps rest = Some (case e of KeyError v \<Rightarrow> v | IndexError \<Rightarrow> 0)
                 \<and> e \<noteq> IndexError
      | Inr fin' \<Rightarrow> first_missing ps rest = None
                 \<and> selected K ground_truth m ps ths (gts @ g # rest) fin'"
      by (simp only: append_assoc append.simps)
    from False have sp: "selection_pass m st ps ths (g # rest) fin =
        selection_pass m st ps ths rest
           (winner_loop m st
              (map (\<lambda>(i, r). score r)
                 (filter (\<lambda>(i, r). video_id r = video_id g) (enumerate 0 ps)))
              (map fst (filter (\<lambda>(i, r). video_id r = video_id g) (enumerate 0 ps)))
              ths 0 fin)"
      by (simp add: get_group_eq group_rows_def)
    from False have fm: "first_missing ps (g # rest) = first_missing ps rest" by simp
    show ?thesis
      unfolding sp fm by (rule ih)
  qed
qed

lemma robustness_loop_length:
  "length (robustness_loop fin ths tidx rob) = length rob"
  by (induction ths arbitrary: tidx rob) (simp_all add: Let_def)

lemma robustness_loop_nth:
  "t < length rob \<Longrightarrow>
     robustness_loop fin ths tidx rob ! t =
       (if tidx \<le> t \<and> t < tidx + length ths \<and> 0 < sum_list (final_track_total_count fin ! t)
        then 100 * sum_list (final_track_acc_count fin ! t)
               / sum_list (final_track_total_count fin ! t)
        else rob ! t)"
proof (induction ths arbitrary: tidx rob)
  case Nil
  then show ?case by simp
next
  case (Cons thr ths)
  show ?case
  proof (cases "t = tidx")
    case True
    have keep: "robustness_loop fin ths (Suc tidx) r ! t = r ! t" if "length r = length rob" for r
      using Cons.IH [of r "Suc tidx"] Cons.prems that True by simp
    from Cons.prems show ?thesis
      by (simp add: Let_def keep) (simp add: True)
  next
    case False
    then have "Suc tidx \<le> t \<longleftrightarrow> tidx \<le> t" by auto
    with False Cons.prems show ?thesis
      by (simp add: Let_def Cons.IH)
  qed
qed

lemma is_argsort_stable: "is_argsort stable_argsort"
  by (simp add: is_argsort_def stable_argsort_def)

lemma length_sort_predictions:
  "is_argsort (argsort K) \<Longrightarrow> length (sort_predictions K ps) = length ps"
  by (simp add: sort_predictions_def sort_idx_def is_argsort_def)

lemma set_sort_predictions:
  assumes "is_argsort (argsort K)"
  shows "set (sort_predictions K ps) = set ps"
proof -
  from assms have "set (argsort K (map score ps)) = {0..<length ps}"
    by (simp add: is_argsort_def)
  then have "set (sort_predictions K ps) = (\<lambda>i. ps ! i) ` {0..<length ps}"
    by (simp add: sort_predictions_def sort_idx_def)
  also have "\<dots> = set ps"
    using nth_image [of "length ps" ps] by simp
  finally show ?thesis .
qed

lemma sort_predictions_descending:
  assumes "is_argsort (argsort K)"
  shows "sorted (rev (map score (sort_predictions K ps)))"
proof -
  let ?l = "argsort K (map score ps)"
  from assms have s: "sorted (map (\<lambda>i. map score ps ! i) ?l)"
    and b: "set ?l = {0..<length ps}"
    by (simp_all add: is_argsort_def)
  have "map (\<lambda>i. map score ps ! i) ?l = map (\<lambda>i. score (ps ! i)) ?l"
    by (rule map_cong [OF refl]) (use b in simp)
  with s have "sorted (map (\<lambda>i. score (ps ! i)) ?l)" by simp
  then show ?thesis
    by (simp add: sort_predictions_def sort_idx_def rev_map comp_def)
qed

lemma group_rows_descending:
  assumes "sorted (rev (map score S))"
  shows "sorted (rev (map score (group_rows S v)))"
proof -
  from assms have "sorted (map score (rev S))" by (simp add: rev_map)
  then have "sorted (map score (filter (\<lambda>r. video_id r = v) (rev S)))"
    by (rule sorted_filter)
  then show ?thesis by (simp add: group_rows_def rev_map rev_filter)
qed

lemma group_rows_Nil: "group_rows ps v = [] \<longleftrightarrow> (\<forall>p \<in> set ps. video_id p \<noteq> v)"
  by (auto simp: group_rows_def filter_empty_conv)

lemma set_group_rows_sorted:
  "is_argsort (argsort K) \<Longrightarrow> set (group_rows (sort_predictions K ps) v) = set (group_rows ps v)"
  by (simp add: group_rows_def set_sort_predictions)

lemma group_rows_sorted_Nil:
  "is_argsort (argsort K) \<Longrightarrow> group_rows (sort_predictions K ps) v = [] \<longleftrightarrow> group_rows ps v = []"
  by (simp add: group_rows_Nil set_sort_predictions)

lemma first_missing_sorted:
  "is_argsort (argsort K) \<Longrightarrow> first_missing (sort_predictions K ps) gts = first_missing ps gts"
  by (induction gts) (simp_all add: group_rows_sorted_Nil)

lemma metrics_of_sorted_eq:
  "metrics_of_sorted K ground_truth S ths m =
     (if \<exists>p \<in> set S. pred_fails K ground_truth p then Inl IndexError
      else case first_missing S ground_truth of
             Some v \<Rightarrow> Inl (KeyError v)
           | None \<Rightarrow> Inr [(''% recovery'', map (recovery K ground_truth m S) ths)])"
proof -
  let ?st0 = "initial_stats (length ths) (length S)"
  show ?thesis
  proof (cases "scoring_pass K ground_truth ths 0 S ?st0")
    case (Inl e)
    then have "e = IndexError" "\<exists>p \<in> set S. pred_fails K ground_truth p"
      by (simp_all add: scoring_pass_Inl)
    then show ?thesis
      using Inl by (simp add: metrics_of_sorted_def Let_def)
  next
    case (Inr st)
    then have nofail: "\<not> (\<exists>p \<in> set S. pred_fails K ground_truth p)"
      using scoring_pass_Inl [of K ground_truth ths 0 S ?st0 IndexError]
      by simp
    from scoring_pass_scored [OF Inr _ scored_initial]
    have sc: "scored K ground_truth ths S (length S) st" by simp
    note sel = selection_pass_eq [OF sc selected_initial, where m = m and rest = ground_truth]
    show ?thesis
    proof (cases "selection_pass m st S ths ground_truth (initial_final (length ths))")
      case (Inl e)
      with sel obtain v where "e = KeyError v" "first_missing S ground_truth = Some v"
        by (cases e) simp_all
      then show ?thesis
        using nofail Inr Inl by (simp add: metrics_of_sorted_def Let_def)
    next
      case fin: (Inr fin)
      with sel have fm: "first_missing S ground_truth = None"
        and sd: "selected K ground_truth m S ths ground_truth fin"
        by simp_all
      have "robustness_loop fin ths 0 (replicate (length ths) 0) =
          map (recovery K ground_truth m S) ths"
      proof (rule nth_equalityI)
        fix t assume "t < length (robustness_loop fin ths 0 (replicate (length ths) 0))"
        then have t: "t < length ths" by (simp add: robustness_loop_length)
        with sd have
          "final_track_acc_count fin ! t =
             map (\<lambda>g. accurate_frames K ground_truth (ths ! t)
                     (winner K ground_truth m S (video_id g))) ground_truth"
          "final_track_total_count fin ! t =
             map (\<lambda>g. total_frames K ground_truth (winner K ground_truth m S (video_id g)))
               ground_truth"
          by (simp_all add: selected_def)
        with t show "robustness_loop fin ths 0 (replicate (length ths) 0) ! t =
            map (recovery K ground_truth m S) ths ! t"
          by (simp add: robustness_loop_nth recovery_def Let_def comp_def)
      qed (simp add: robustness_loop_length)
      then show ?thesis
        using nofail Inr fin fm by (simp add: metrics_of_sorted_def Let_def)
    qed
  qed
qed

lemma compute_tracking_metrics_eq:
  assumes "is_argsort (argsort K)"
  shows "compute_tracking_metrics K ground_truth prediction ths m =
     (if prediction = [] then Inr [(''% recovery'', replicate (length ths) 0)]
      else if \<exists>p \<in> set prediction. pred_fails K ground_truth p then Inl IndexError
      else case first_missing prediction ground_truth of
             Some v \<Rightarrow> Inl (KeyError v)
           | None \<Rightarrow> Inr [(''% recovery'',
                       map (recovery K ground_truth m (sort_predictions K prediction)) ths)])"
  by (simp add: compute_tracking_metrics_def metrics_of_sorted_eq
      set_sort_predictions [OF assms] first_missing_sorted [OF assms])

lemma argmax_head: "\<forall>x \<in> set xs. x \<le> y \<Longrightarrow> argmax (y # xs) = 0"
proof (cases xs)
  case Nil
  then show ?thesis by simp
next
  case (Cons z zs)
  assume le: "\<forall>x \<in> set xs. x \<le> y"
  have "argmax (z # zs) < length (z # zs)" by (rule argmax_less) simp
  then have "(z # zs) ! argmax (z # zs) \<in> set xs" unfolding Cons by (rule nth_mem)
  with le have "\<not> y < (z # zs) ! argmax (z # zs)" by (simp add: not_less)
  then show ?thesis unfolding Cons by (simp add: Let_def)
qed

lemma descending_head:
  "sorted (rev (map f (x # xs))) \<Longrightarrow> \<forall>y \<in> set xs. f y \<le> f x"
  by (auto simp: sorted_append)

lemma winner_head:
  assumes ne: "group_rows S v \<noteq> []"
    and top: "\<forall>q \<in> set (group_rows S v).
                selection_key K gt m q \<le> selection_key K gt m (hd (group_rows S v))"
  shows "winner K gt m S v = hd (group_rows S v)"
proof -
  from ne obtain h t where g: "group_rows S v = h # t" by (cases "group_rows S v") auto
  with top have "\<forall>x \<in> set (map (selection_key K gt m) t). x \<le> selection_key K gt m h"
    by auto
  then have "argmax (selection_key K gt m h # map (selection_key K gt m) t) = 0"
    by (rule argmax_head)
  then show ?thesis by (simp add: winner_def g)
qed

lemma winner_take_max_score:
  assumes "sorted (rev (map score S))" and ne: "group_rows S v \<noteq> []"
  shows "winner K gt take_max_score S v = hd (group_rows S v)"
    and "\<forall>q \<in> set (group_rows S v). score q \<le> score (hd (group_rows S v))"
proof -
  from ne obtain h t where g: "group_rows S v = h # t" by (cases "group_rows S v") auto
  from group_rows_descending [OF assms(1), of v]
  have "\<forall>y \<in> set t. score y \<le> score h" unfolding g by (rule descending_head)
  then show top: "\<forall>q \<in> set (group_rows S v). score q \<le> score (hd (group_rows S v))"
    by (simp add: g)
  then show "winner K gt take_max_score S v = hd (group_rows S v)"
    by (intro winner_head [OF ne]) (simp add: selection_key_def)
qed

lemma winner_take_max_stiou:
  assumes "group_rows S v \<noteq> []"
    and "\<forall>q \<in> set (group_rows S v).
           whole_track_iou K gt q \<le> whole_track_iou K gt (hd (group_rows S v))"
  shows "winner K gt take_max_stiou S v = hd (group_rows S v)"
  using assms by (intro winner_head) (simp_all add: selection_key_def)

lemma first_missing_None:
  "first_missing ps gts = None \<longleftrightarrow> (\<forall>g \<in> set gts. group_rows ps (video_id g) \<noteq> [])"
  by (induction gts) simp_all

lemma first_missing_Some:
  "first_missing ps gts = Some v \<Longrightarrow> v \<in> video_id ` set gts \<and> group_rows ps v = []"
  by (induction gts) (auto split: if_splits)

lemma pred_fails_contract:
  assumes "\<forall>t ts. ts \<noteq> [] \<longrightarrow> spatio_temporal_iou K t ts \<noteq> []
                                 \<and> spatio_temporal_iou_matches K t ts \<noteq> []"
  shows "\<not> pred_fails K gt p"
  using assms by (simp add: pred_fails_def split: list.splits)







lemma length_filter_mono:
  "(\<And>x. P x \<Longrightarrow> Q x) \<Longrightarrow> length (filter P xs) \<le> length (filter Q xs)"
  by (induction xs) auto

lemma accurate_frames_antimono:
  "t1 \<le> t2 \<Longrightarrow> accurate_frames K gt t2 p \<le> accurate_frames K gt t1 p"
  unfolding accurate_frames_def
  by (simp add: length_filter_mono)

lemma recovery_antimono:
  assumes "t1 \<le> t2"
  shows "recovery K gt m ps t2 \<le> recovery K gt m ps t1"
proof -
  let ?ws = "map (\<lambda>g. winner K gt m ps (video_id g)) gt"
  have "sum_list (map (accurate_frames K gt t2) ?ws) \<le> sum_list (map (accurate_frames K gt t1) ?ws)"
    by (rule sum_list_mono) (rule accurate_frames_antimono [OF assms])
  then show ?thesis
    by (simp add: recovery_def Let_def divide_right_mono)
qed

lemma compute_tracking_metrics_Inr:
  assumes "compute_tracking_metrics K gt ps ths m = Inr d"
  shows "ps = [] \<and> d = [(''% recovery'', replicate (length ths) 0)]
       \<or> ps \<noteq> [] \<and> (\<forall>p \<in> set (sort_predictions K ps). \<not> pred_fails K gt p)
           \<and> first_missing (sort_predictions K ps) gt = None
           \<and> d = [(''% recovery'', map (recovery K gt m (sort_predictions K ps)) ths)]"
  using assms unfolding compute_tracking_metrics_def metrics_of_sorted_eq
  by (auto split: if_splits option.splits)

lemma compute_tracking_metrics_shape:
  "compute_tracking_metrics K gt ps ths m = Inr d \<Longrightarrow>
     \<exists>r. d = [(''% recovery'', r)] \<and> length r = length ths"
  by (drule compute_tracking_metrics_Inr) auto

lemma winner_in_group:
  "group_rows ps v \<noteq> [] \<Longrightarrow> winner K gt m ps v \<in> set (group_rows ps v)"
  unfolding winner_def Let_def
  by (rule nth_mem) (use argmax_less [of "map (selection_key K gt m) (group_rows ps v)"] in simp)

lemma winner_in_prediction:
  assumes "first_missing S gt = None" and "g \<in> set gt"
  shows "winner K gt m S (video_id g) \<in> set S"
proof -
  from assms have "group_rows S (video_id g) \<noteq> []" by (simp add: first_missing_None)
  from winner_in_group [OF this]
  show ?thesis by (auto simp: group_rows_def)
qed

lemma recovery_range:
  assumes "\<forall>g \<in> set gt. accurate_frames K gt thr (winner K gt m ps (video_id g))
                         \<le> total_frames K gt (winner K gt m ps (video_id g))"
  shows "0 \<le> recovery K gt m ps thr" and "recovery K gt m ps thr \<le> 100"
proof -
  let ?ws = "map (\<lambda>g. winner K gt m ps (video_id g)) gt"
  have nonneg: "0 \<le> sum_list (map (accurate_frames K gt thr) ?ws)"
    by (rule sum_list_nonneg) (auto simp: accurate_frames_def)
  have le: "sum_list (map (accurate_frames K gt thr) ?ws) \<le> sum_list (map (total_frames K gt) ?ws)"
    by (rule sum_list_mono) (use assms in auto)
  from nonneg show "0 \<le> recovery K gt m ps thr"
    by (simp add: recovery_def Let_def)
  from le show "recovery K gt m ps thr \<le> 100"
    by (simp add: recovery_def Let_def pos_divide_le_eq)
qed

lemma contract_frames:
  assumes "\<not> pred_fails K gt p"
    and "\<forall>g gs d ds. gt_tracks gt (video_id p) = g # gs
           \<longrightarrow> spatio_temporal_iou_matches K (response_track p) (g # gs) = d # ds
           \<longrightarrow> int (length d) \<le> track_length K g"
  shows "accurate_frames K gt thr p \<le> total_frames K gt p"
proof (cases "gt_tracks gt (video_id p)")
  case Nil
  then show ?thesis by (simp add: accurate_frames_def frame_ious_def total_frames_def)
next
  case (Cons g gs)
  with assms(1) obtain d ds where
    d: "spatio_temporal_iou_matches K (response_track p) (g # gs) = d # ds"
    by (cases "spatio_temporal_iou_matches K (response_track p) (g # gs)")
       (auto simp: pred_fails_def)
  with assms(2) Cons have "int (length d) \<le> track_length K g" by blast
  then have "real (length d) \<le> real_of_int (track_length K g)"
    by (metis of_int_le_iff of_int_of_nat_eq)
  moreover have "real (length (filter (\<lambda>v. thr \<le> v) (map snd d))) \<le> real (length d)"
    using length_filter_le [of "\<lambda>v. thr \<le> v" "map snd d"] by simp
  ultimately have "real (length (filter (\<lambda>v. thr \<le> v) (map snd d)))
      \<le> real_of_int (track_length K g)"
    by (rule order_trans [rotated])
  moreover have "accurate_frames K gt thr p = real (length (filter (\<lambda>v. thr \<le> v) (map snd d)))"
    "total_frames K gt p = real_of_int (track_length K g)"
    using Cons d by (simp_all only: accurate_frames_def frame_ious_def total_frames_def list.case)
  ultimately show ?thesis by (simp only:)
qed

lemma unique_best_is_head:
  fixes f :: "'a \<Rightarrow> real"
  assumes p: "p \<in> set G"
    and best: "\<forall>q \<in> set G. q \<noteq> p \<longrightarrow> f q < f p"
    and top: "\<forall>q \<in> set G. f q \<le> f (hd G)"
  shows "hd G = p"
proof (rule ccontr)
  assume neq: "hd G \<noteq> p"
  from p have "G \<noteq> []" by auto
  then have "hd G \<in> set G" by simp
  with best neq have "f (hd G) < f p" by blast
  moreover from top p have "f p \<le> f (hd G)" by blast
  ultimately show False by simp
qed

lemma group_indices_bound:
  "get_group df v = Inr grp \<Longrightarrow> \<forall>i \<in> set (map fst grp). i < length df"
  by (auto simp: get_group_eq in_set_enumerate_eq split: if_splits)

lemma argsort_two:
  assumes A: "is_argsort A" and lt: "y < x"
  shows "A [x, y] = [Suc 0, 0]"
proof -
  from A have len: "length (A [x, y]) = length [x, y]"
    and st: "set (A [x, y]) = {0..<length [x, y]}"
    and so: "sorted (map (\<lambda>i. [x, y] ! i) (A [x, y]))"
    unfolding is_argsort_def by blast+
  from len obtain a b where ab: "A [x, y] = [a, b]"
    by (cases "A [x, y]"; cases "tl (A [x, y])") auto
  have iv: "{0..<length [x, y]} = {0, Suc 0}"
    by (simp add: atLeastLessThanSuc insert_commute)
  from st ab have "{a, b} = {0, Suc 0}"
    unfolding iv by simp
  then have "a = 0 \<and> b = Suc 0 \<or> a = Suc 0 \<and> b = 0"
    by (auto simp: doubleton_eq_iff)
  moreover from so ab lt have "\<not> (a = 0 \<and> b = Suc 0)" by auto
  ultimately show ?thesis using ab by blast
qed

section \<open>Claims\<close>

text \<open>
  C4. With no prediction at all the function returns a vector of zeros, one per threshold,
  whatever the ground truth is: nothing is raised and the ground truth is not read.
\<close>

theorem empty_prediction_zero_vector:
  "compute_tracking_metrics K gt [] ths m = Inr [(''% recovery'', replicate (length ths) 0)]"
  by (simp add: compute_tracking_metrics_def)

text \<open>
  C1. One video whose ground truth has 10 frames, and two predictions for it: P1 with score
  0.9 and 5 matched frames at IoU 0.6, P2 with score 0.3 and 10 matched frames at IoU 0.8.
  At threshold 0.5, the mode \<open>take_max_score\<close> keeps P1 and returns 50, and the mode
  \<open>take_max_stiou\<close>, when the whole-track IoU of P2 is above that of P1, keeps P2 and
  returns 100. The collaborators are any that answer so on these three tracks, with any
  argsort: the two scores differ, so the sorted order is the same for all of them.
\<close>

theorem scenario_two_predictions:
  assumes srt: "is_argsort (argsort K)"
    and len: "track_length K G = 10"
    and iou1: "spatio_temporal_iou K P1 [G] = [a]"
    and iou2: "spatio_temporal_iou K P2 [G] = [b]"
    and m1: "spatio_temporal_iou_matches K P1 [G] = [d1]" "map snd d1 = replicate 5 0.6"
    and m2: "spatio_temporal_iou_matches K P2 [G] = [d2]" "map snd d2 = replicate 10 0.8"
  shows "(let gt = [\<lparr>video_id = 0, response_track = G\<rparr>];
              p1 = \<lparr>video_id = 0, response_track = P1, score = 0.9\<rparr>;
              p2 = \<lparr>video_id = 0, response_track = P2, score = 0.3\<rparr>
          in winner K gt take_max_score (sort_predictions K [p1, p2]) 0 = p1
           \<and> compute_tracking_metrics K gt [p1, p2] [0.5] take_max_score
               = Inr [(''% recovery'', [50])]
           \<and> (a < b \<longrightarrow>
                winner K gt take_max_stiou (sort_predictions K [p1, p2]) 0 = p2
              \<and> compute_tracking_metrics K gt [p1, p2] [0.5] take_max_stiou
                  = Inr [(''% recovery'', [100])]))"
proof -
  have "argsort K [0.9, 0.3] = [Suc 0, 0]"
    by (rule argsort_two [OF srt]) simp
  then have order: "sort_predictions K [\<lparr>video_id = 0, response_track = P1, score = 0.9\<rparr>,
                        \<lparr>video_id = 0, response_track = P2, score = 0.3\<rparr>]
                 = [\<lparr>video_id = 0, response_track = P1, score = 0.9\<rparr>,
                    \<lparr>video_id = 0, response_track = P2, score = 0.3\<rparr>]"
    by (simp add: sort_predictions_def sort_idx_def)
  from len iou1 iou2 m1 m2 show ?thesis
    by (simp add: compute_tracking_metrics_eq [OF srt] order Let_def pred_fails_def gt_tracks_def
        group_rows_def recovery_def winner_def selection_key_def whole_track_iou_def
        accurate_frames_def frame_ious_def total_frames_def)
qed

theorem scenario_two_predictions_witness:
  "is_argsort (argsort example_K)
   \<and> track_length example_K 0 = 10
   \<and> spatio_temporal_iou example_K 1 [0] = [0.3] \<and> spatio_temporal_iou example_K 2 [0] = [0.8]
   \<and> (0.3 :: real) < 0.8
   \<and> compute_tracking_metrics example_K [\<lparr>video_id = 0, response_track = 0\<rparr>]
        [\<lparr>video_id = 0, response_track = 1, score = 0.9\<rparr>,
         \<lparr>video_id = 0, response_track = 2, score = 0.3\<rparr>] [0.5] take_max_score
       = Inr [(''% recovery'', [50])]
   \<and> compute_tracking_metrics example_K [\<lparr>video_id = 0, response_track = 0\<rparr>]
        [\<lparr>video_id = 0, response_track = 1, score = 0.9\<rparr>,
         \<lparr>video_id = 0, response_track = 2, score = 0.3\<rparr>] [0.5] take_max_stiou
       = Inr [(''% recovery'', [100])]"
proof -
  have s: "is_argsort (argsort example_K)"
    by (simp add: example_K_def is_argsort_stable)
  have h: "track_length example_K 0 = 10"
    "spatio_temporal_iou example_K 1 [0] = [0.3]"
    "spatio_temporal_iou example_K 2 [0] = [0.8]"
    "spatio_temporal_iou_matches example_K 1 [0] = [map (\<lambda>f. (f, 0.6)) [0..<5]]"
    "map snd (map (\<lambda>f. (f, 0.6 :: real)) [0..<5]) = replicate 5 0.6"
    "spatio_temporal_iou_matches example_K 2 [0] = [map (\<lambda>f. (f, 0.8)) [0..<10]]"
    "map snd (map (\<lambda>f. (f, 0.8 :: real)) [0..<10]) = replicate 10 0.8"
    by (simp_all add: example_K_def comp_def map_replicate_const)
  from scenario_two_predictions [OF s h] s h(1-3)
  show ?thesis by (simp add: Let_def)
qed

text \<open>
  C2. When some ground-truth video has no prediction and the predictions are not empty, the
  function never returns a value: it raises. When the collaborators answer at least once on
  a non-empty list of candidates, what it raises is the \<open>KeyError\<close> of the selection
  loop, for a ground-truth video that has no prediction.
\<close>

theorem missing_predictions_raise:
  assumes "is_argsort (argsort K)"
    and "ps \<noteq> []" and "g \<in> set gt" and "\<forall>p \<in> set ps. video_id p \<noteq> video_id g"
  shows "(\<exists>e. compute_tracking_metrics K gt ps ths m = Inl e)
       \<and> ((\<forall>t ts. ts \<noteq> [] \<longrightarrow> spatio_temporal_iou K t ts \<noteq> []
                                   \<and> spatio_temporal_iou_matches K t ts \<noteq> [])
            \<longrightarrow> (\<exists>v \<in> video_id ` set gt.
                   (\<forall>p \<in> set ps. video_id p \<noteq> v)
                 \<and> compute_tracking_metrics K gt ps ths m = Inl (KeyError v)))"
proof -
  from assms(3,4) have "first_missing ps gt \<noteq> None"
    by (auto simp: first_missing_None group_rows_Nil)
  then obtain v where v: "first_missing ps gt = Some v" by auto
  from first_missing_Some [OF v]
  have vin: "v \<in> video_id ` set gt" and none: "\<forall>p \<in> set ps. video_id p \<noteq> v"
    by (simp_all add: group_rows_Nil)
  have "\<exists>e. compute_tracking_metrics K gt ps ths m = Inl e"
    using assms(2) v by (simp add: compute_tracking_metrics_eq [OF assms(1)])
  moreover have "compute_tracking_metrics K gt ps ths m = Inl (KeyError v)"
    if "\<forall>t ts. ts \<noteq> [] \<longrightarrow> spatio_temporal_iou K t ts \<noteq> []
                                   \<and> spatio_temporal_iou_matches K t ts \<noteq> []"
    using assms(2) v pred_fails_contract [OF that]
    by (simp add: compute_tracking_metrics_eq [OF assms(1)])
  ultimately show ?thesis using vin none by blast
qed

theorem missing_predictions_raise_witness:
  "is_argsort (argsort example_K)
   \<and> [\<lparr>video_id = 0, response_track = 1, score = 0.9\<rparr>] \<noteq> ([] :: nat pred_row list)
   \<and> \<lparr>video_id = 1, response_track = 0\<rparr>
        \<in> set [\<lparr>video_id = 0, response_track = 0\<rparr>, \<lparr>video_id = 1, response_track = (0::nat)\<rparr>]
   \<and> compute_tracking_metrics example_K
        [\<lparr>video_id = 0, response_track = 0\<rparr>, \<lparr>video_id = 1, response_track = 0\<rparr>]
        [\<lparr>video_id = 0, response_track = 1, score = 0.9\<rparr>] [0.5] take_max_score
       = Inl (KeyError 1)"
proof -
  have s: "is_argsort (argsort example_K)"
    by (simp add: example_K_def is_argsort_stable)
  have c: "\<forall>t ts. ts \<noteq> [] \<longrightarrow> spatio_temporal_iou example_K t ts \<noteq> []
                                   \<and> spatio_temporal_iou_matches example_K t ts \<noteq> []"
    by (simp add: example_K_def)
  from missing_predictions_raise [OF s,
      of "[\<lparr>video_id = 0, response_track = 1, score = 0.9\<rparr>]"
      "\<lparr>video_id = 1, response_track = 0\<rparr>"
      "[\<lparr>video_id = 0, response_track = 0\<rparr>, \<lparr>video_id = 1, response_track = 0\<rparr>]"
      "[0.5]" take_max_score] c s
  show ?thesis by auto
qed



text \<open>
  C6. For one input, the percentage at a threshold is at least the percentage at any larger
  threshold of the grid: the rows kept and the denominator are the same at both, and the
  frames counted at the larger threshold are counted at the smaller one.
\<close>

theorem robustness_antitone_in_threshold:
  assumes "compute_tracking_metrics K gt ps ths m = Inr d"
    and "i < length ths" and "j < length ths" and "ths ! i \<le> ths ! j"
  shows "\<exists>r. d = [(''% recovery'', r)] \<and> length r = length ths \<and> r ! j \<le> r ! i"
  using compute_tracking_metrics_Inr [OF assms(1)] assms(2-4)
  by (auto simp: recovery_antimono)

theorem robustness_antitone_in_threshold_witness:
  "compute_tracking_metrics example_K [\<lparr>video_id = 0, response_track = 0\<rparr>]
        [\<lparr>video_id = 0, response_track = 1, score = 0.9\<rparr>,
         \<lparr>video_id = 0, response_track = 2, score = 0.3\<rparr>] [0.5, 0.75] take_max_score
     = Inr [(''% recovery'', [50, 0])]
   \<and> (0::nat) < length [0.5, 0.75 :: real] \<and> (1::nat) < length [0.5, 0.75 :: real]
   \<and> [0.5, 0.75 :: real] ! 0 \<le> [0.5, 0.75] ! 1
   \<and> [50, 0 :: real] ! 1 \<le> [50, 0] ! 0"
proof -
  have c: "compute_tracking_metrics example_K [\<lparr>video_id = 0, response_track = 0\<rparr>]
        [\<lparr>video_id = 0, response_track = 1, score = 0.9\<rparr>,
         \<lparr>video_id = 0, response_track = 2, score = 0.3\<rparr>] [0.5, 0.75] take_max_score
     = Inr [(''% recovery'', [50, 0])]"
    by code_simp
  from robustness_antitone_in_threshold [OF c, of 0 1]
  show ?thesis using c by simp
qed

text \<open>
  C7. When no prediction has more matched frames than the ground truth of its video has
  frames, every percentage returned lies between 0 and 100; the bounds on the IoU values
  and the sign of the lengths are not needed. The percentage is 0 when the summed frame
  counts of the ground truth are 0 (or below): in terms of the rows kept, and in terms of
  the loop of lines 199 to 204 for any content of the three lists.
\<close>

theorem robustness_between_0_and_100:
  assumes srt: "is_argsort (argsort K)"
    and run: "compute_tracking_metrics K gt ps ths m = Inr d"
    and contract: "\<forall>p \<in> set ps. \<forall>g gs d ds. gt_tracks gt (video_id p) = g # gs
           \<longrightarrow> spatio_temporal_iou_matches K (response_track p) (g # gs) = d # ds
           \<longrightarrow> int (length d) \<le> track_length K g"
    and t: "t < length ths"
  shows "\<exists>r. d = [(''% recovery'', r)] \<and> length r = length ths
            \<and> 0 \<le> r ! t \<and> r ! t \<le> 100
            \<and> (ps \<noteq> [] \<and> sum_list (map (\<lambda>g. total_frames K gt
                    (winner K gt m (sort_predictions K ps) (video_id g))) gt) \<le> 0
                 \<longrightarrow> r ! t = 0)
            \<and> (\<forall>fin. sum_list (final_track_total_count fin ! t) \<le> 0
                 \<longrightarrow> robustness_loop fin ths 0 (replicate (length ths) 0) ! t = 0)"
proof -
  let ?S = "sort_predictions K ps"
  have loop: "\<forall>fin. sum_list (final_track_total_count fin ! t) \<le> 0
                 \<longrightarrow> robustness_loop fin ths 0 (replicate (length ths) 0) ! t = 0"
    using t by (simp add: robustness_loop_nth)
  from compute_tracking_metrics_Inr [OF run]
  show ?thesis
  proof
    assume "ps = [] \<and> d = [(''% recovery'', replicate (length ths) 0)]"
    with t loop show ?thesis by simp
  next
    assume a: "ps \<noteq> [] \<and> (\<forall>p \<in> set ?S. \<not> pred_fails K gt p) \<and> first_missing ?S gt = None
           \<and> d = [(''% recovery'', map (recovery K gt m ?S) ths)]"
    have "accurate_frames K gt (ths ! t) (winner K gt m ?S (video_id g))
            \<le> total_frames K gt (winner K gt m ?S (video_id g))"
      if "g \<in> set gt" for g
    proof -
      from a that have w: "winner K gt m ?S (video_id g) \<in> set ?S"
        by (simp add: winner_in_prediction)
      then have "winner K gt m ?S (video_id g) \<in> set ps"
        by (simp add: set_sort_predictions [OF srt])
      with a w contract show ?thesis
        by (intro contract_frames) blast+
    qed
    then have "0 \<le> recovery K gt m ?S (ths ! t)"
      "recovery K gt m ?S (ths ! t) \<le> 100"
      by (simp_all add: recovery_range)
    moreover have "sum_list (map (\<lambda>g. total_frames K gt
                    (winner K gt m ?S (video_id g))) gt) \<le> 0
        \<longrightarrow> recovery K gt m ?S (ths ! t) = 0"
      by (simp add: recovery_def Let_def comp_def)
    ultimately show ?thesis
      using a t loop by simp
  qed
qed

theorem robustness_between_0_and_100_witness:
  "is_argsort (argsort example_K)
   \<and> spatio_temporal_iou_matches example_K 1 [0] = [map (\<lambda>f. (f, 0.6)) [0..<5]]
   \<and> spatio_temporal_iou_matches example_K 2 [0] = [map (\<lambda>f. (f, 0.8)) [0..<10]]
   \<and> int (length (map (\<lambda>f. (f, 0.6 :: real)) [0..<5])) \<le> track_length example_K 0
   \<and> int (length (map (\<lambda>f. (f, 0.8 :: real)) [0..<10])) \<le> track_length example_K 0
   \<and> (0::nat) < length [0.5, 0.75 :: real]
   \<and> compute_tracking_metrics example_K [\<lparr>video_id = 0, response_track = 0\<rparr>]
        [\<lparr>video_id = 0, response_track = 1, score = 0.9\<rparr>,
         \<lparr>video_id = 0, response_track = 2, score = 0.3\<rparr>] [0.5, 0.75] take_max_score
     = Inr [(''% recovery'', [50, 0])]
   \<and> (0::real) \<le> [50, 0] ! 0 \<and> [50, 0 :: real] ! 0 \<le> 100"
proof -
  have s: "is_argsort (argsort example_K)"
    by (simp add: example_K_def is_argsort_stable)
  have c: "compute_tracking_metrics example_K [\<lparr>video_id = 0, response_track = 0\<rparr>]
        [\<lparr>video_id = 0, response_track = 1, score = 0.9\<rparr>,
         \<lparr>video_id = 0, response_track = 2, score = 0.3\<rparr>] [0.5, 0.75] take_max_score
     = Inr [(''% recovery'', [50, 0])]"
    by code_simp
  have h: "\<forall>p \<in> set [\<lparr>video_id = 0, response_track = 1, score = 0.9\<rparr>,
                  \<lparr>video_id = 0, response_track = 2, score = 0.3\<rparr>].
      \<forall>g gs d ds. gt_tracks [\<lparr>video_id = 0, response_track = 0\<rparr>] (video_id p) = g # gs
           \<longrightarrow> spatio_temporal_iou_matches example_K (response_track p) (g # gs) = d # ds
           \<longrightarrow> int (length d) \<le> track_length example_K g"
    by (auto simp: gt_tracks_def example_K_def)
  have k: "spatio_temporal_iou_matches example_K 1 [0] = [map (\<lambda>f. (f, 0.6)) [0..<5]]"
    "spatio_temporal_iou_matches example_K 2 [0] = [map (\<lambda>f. (f, 0.8)) [0..<10]]"
    "int (length (map (\<lambda>f. (f, 0.6 :: real)) [0..<5])) \<le> track_length example_K 0"
    "int (length (map (\<lambda>f. (f, 0.8 :: real)) [0..<10])) \<le> track_length example_K 0"
    by (simp_all add: example_K_def)
  from robustness_between_0_and_100 [OF s c h, of 0] s k c
  show ?thesis by simp
qed

text \<open>
  C8. When every ground-truth video has a prediction whose score is above the score of every
  other prediction of the video, and whose whole-track IoU is the largest of the video,
  the two modes return the same result, whatever argsort does with equal scores.
\<close>

theorem modes_coincide:
  assumes srt: "is_argsort (argsort K)"
    and best: "\<forall>g \<in> set gt. \<exists>p \<in> set ps. video_id p = video_id g
             \<and> (\<forall>q \<in> set ps. video_id q = video_id g \<longrightarrow> q \<noteq> p \<longrightarrow> score q < score p)
             \<and> (\<forall>q \<in> set ps. video_id q = video_id g
                   \<longrightarrow> whole_track_iou K gt q \<le> whole_track_iou K gt p)"
  shows "compute_tracking_metrics K gt ps ths take_max_score =
         compute_tracking_metrics K gt ps ths take_max_stiou"
proof -
  let ?S = "sort_predictions K ps"
  have w: "winner K gt take_max_score ?S (video_id g) =
           winner K gt take_max_stiou ?S (video_id g)" if g: "g \<in> set gt" for g
  proof -
    let ?G = "group_rows ?S (video_id g)"
    from best g obtain p where p: "p \<in> set ps" "video_id p = video_id g"
      and sc: "\<forall>q \<in> set ps. video_id q = video_id g \<longrightarrow> q \<noteq> p \<longrightarrow> score q < score p"
      and io: "\<forall>q \<in> set ps. video_id q = video_id g
                   \<longrightarrow> whole_track_iou K gt q \<le> whole_track_iou K gt p"
      by blast
    have members: "set ?G = {q \<in> set ps. video_id q = video_id g}"
      by (auto simp: group_rows_def set_sort_predictions [OF srt])
    with p have pin: "p \<in> set ?G" by simp
    then have ne: "?G \<noteq> []" by auto
    note top = winner_take_max_score [OF sort_predictions_descending [OF srt] ne]
    from sc members have "\<forall>q \<in> set ?G. q \<noteq> p \<longrightarrow> score q < score p" by simp
    from unique_best_is_head [OF pin this top(2)] have h: "hd ?G = p" .
    from io members have "\<forall>q \<in> set ?G. whole_track_iou K gt q \<le> whole_track_iou K gt (hd ?G)"
      unfolding h by simp
    from winner_take_max_stiou [OF ne this] top(1) [of K gt]
    show ?thesis by simp
  qed
  have "recovery K gt take_max_score ?S = recovery K gt take_max_stiou ?S"
  proof (rule ext)
    fix thr
    have "map (\<lambda>g. winner K gt take_max_score ?S (video_id g)) gt =
          map (\<lambda>g. winner K gt take_max_stiou ?S (video_id g)) gt"
      by (rule map_cong [OF refl]) (rule w)
    then show "recovery K gt take_max_score ?S thr = recovery K gt take_max_stiou ?S thr"
      by (simp only: recovery_def)
  qed
  then show ?thesis
    by (simp only: compute_tracking_metrics_eq [OF srt])
qed

theorem modes_coincide_witness:
  "is_argsort (argsort example_K)
   \<and> score \<lparr>video_id = 0, response_track = (1::nat), score = 0.2\<rparr>
     < score \<lparr>video_id = 0, response_track = (2::nat), score = 0.7\<rparr>
   \<and> whole_track_iou example_K [\<lparr>video_id = 0, response_track = 0\<rparr>]
        \<lparr>video_id = 0, response_track = 1, score = 0.2\<rparr>
     \<le> whole_track_iou example_K [\<lparr>video_id = 0, response_track = 0\<rparr>]
        \<lparr>video_id = 0, response_track = 2, score = 0.7\<rparr>
   \<and> compute_tracking_metrics example_K [\<lparr>video_id = 0, response_track = 0\<rparr>]
        [\<lparr>video_id = 0, response_track = 1, score = 0.2\<rparr>,
         \<lparr>video_id = 0, response_track = 2, score = 0.7\<rparr>] [0.5] take_max_score
     = compute_tracking_metrics example_K [\<lparr>video_id = 0, response_track = 0\<rparr>]
        [\<lparr>video_id = 0, response_track = 1, score = 0.2\<rparr>,
         \<lparr>video_id = 0, response_track = 2, score = 0.7\<rparr>] [0.5] take_max_stiou
   \<and> compute_tracking_metrics example_K [\<lparr>video_id = 0, response_track = 0\<rparr>]
        [\<lparr>video_id = 0, response_track = 1, score = 0.2\<rparr>,
         \<lparr>video_id = 0, response_track = 2, score = 0.7\<rparr>] [0.5] take_max_stiou
     = Inr [(''% recovery'', [100])]"
proof -
  have s: "is_argsort (argsort example_K)"
    by (simp add: example_K_def is_argsort_stable)
  have h: "\<forall>g \<in> set [\<lparr>video_id = 0, response_track = 0\<rparr>].
      \<exists>p \<in> set [\<lparr>video_id = 0, response_track = 1, score = 0.2\<rparr>,
                 \<lparr>video_id = 0, response_track = 2, score = 0.7\<rparr>].
        video_id p = video_id g
      \<and> (\<forall>q \<in> set [\<lparr>video_id = 0, response_track = 1, score = 0.2\<rparr>,
                     \<lparr>video_id = 0, response_track = 2, score = 0.7\<rparr>].
            video_id q = video_id g \<longrightarrow> q \<noteq> p \<longrightarrow> score q < score p)
      \<and> (\<forall>q \<in> set [\<lparr>video_id = 0, response_track = 1, score = 0.2\<rparr>,
                     \<lparr>video_id = 0, response_track = 2, score = 0.7\<rparr>].
            video_id q = video_id g
            \<longrightarrow> whole_track_iou example_K [\<lparr>video_id = 0, response_track = 0\<rparr>] q
                \<le> whole_track_iou example_K [\<lparr>video_id = 0, response_track = 0\<rparr>] p)"
    by (simp add: whole_track_iou_def gt_tracks_def example_K_def)
  have k: "whole_track_iou example_K [\<lparr>video_id = 0, response_track = 0\<rparr>]
        \<lparr>video_id = 0, response_track = 1, score = 0.2\<rparr>
     \<le> whole_track_iou example_K [\<lparr>video_id = 0, response_track = 0\<rparr>]
        \<lparr>video_id = 0, response_track = 2, score = 0.7\<rparr>"
    by (simp add: whole_track_iou_def gt_tracks_def example_K_def)
  have c: "compute_tracking_metrics example_K [\<lparr>video_id = 0, response_track = 0\<rparr>]
        [\<lparr>video_id = 0, response_track = 1, score = 0.2\<rparr>,
         \<lparr>video_id = 0, response_track = 2, score = 0.7\<rparr>] [0.5] take_max_stiou
     = Inr [(''% recovery'', [100])]"
    by code_simp
  from modes_coincide [OF s h, of "[0.5]"] s k c show ?thesis by simp
qed

text \<open>
  C5. The sort of lines 133 to 135 is the reverse of an ascending argsort, not a stable
  descending sort, and the first of several tied predictions in the input is not the one
  kept. With \<open>tie_prediction\<close>, two predictions of one video with the same score, and the
  argsort that NumPy applies to so short an array, the sorted order is input row 1 then
  input row 0, and the mode \<open>take_max_score\<close> keeps input row 1, the later one: the
  result is 100, where the earlier row alone gives 0.

  What holds, for any argsort: the sorted frame holds the same predictions in descending
  score order, and in the mode \<open>take_max_score\<close> the row kept for a video is the first
  row of the video in the sorted frame, a prediction of the video that has the maximum
  score of the video. Which of several tied predictions comes first in the sorted frame
  is what argsort decides; the order of the input does not settle it.
\<close>

theorem tie_counterexample:
  "is_argsort (argsort example_K)
   \<and> sort_idx example_K tie_prediction = [1, 0]
   \<and> winner example_K [\<lparr>video_id = 0, response_track = 0\<rparr>] take_max_score
        (sort_predictions example_K tie_prediction) 0 = tie_prediction ! 1
   \<and> tie_prediction ! 1 \<noteq> tie_prediction ! 0
   \<and> compute_tracking_metrics example_K [\<lparr>video_id = 0, response_track = 0\<rparr>]
        tie_prediction [0.7] take_max_score = Inr [(''% recovery'', [100])]
   \<and> compute_tracking_metrics example_K [\<lparr>video_id = 0, response_track = 0\<rparr>]
        [tie_prediction ! 0] [0.7] take_max_score = Inr [(''% recovery'', [0])]"
proof -
  have "is_argsort (argsort example_K)"
    by (simp add: example_K_def is_argsort_stable)
  moreover have "sort_idx example_K tie_prediction = [1, 0]
   \<and> winner example_K [\<lparr>video_id = 0, response_track = 0\<rparr>] take_max_score
        (sort_predictions example_K tie_prediction) 0 = tie_prediction ! 1
   \<and> tie_prediction ! 1 \<noteq> tie_prediction ! 0
   \<and> compute_tracking_metrics example_K [\<lparr>video_id = 0, response_track = 0\<rparr>]
        tie_prediction [0.7] take_max_score = Inr [(''% recovery'', [100])]
   \<and> compute_tracking_metrics example_K [\<lparr>video_id = 0, response_track = 0\<rparr>]
        [tie_prediction ! 0] [0.7] take_max_score = Inr [(''% recovery'', [0])]"
    by code_simp
  ultimately show ?thesis by simp
qed

theorem descending_sort_first_sorted_wins:
  assumes srt: "is_argsort (argsort K)"
  shows "sorted (rev (map score (sort_predictions K ps)))
       \<and> set (sort_predictions K ps) = set ps
       \<and> length (sort_predictions K ps) = length ps
       \<and> (group_rows ps v \<noteq> [] \<longrightarrow>
            winner K gt take_max_score (sort_predictions K ps) v
              = hd (group_rows (sort_predictions K ps) v)
          \<and> winner K gt take_max_score (sort_predictions K ps) v \<in> set (group_rows ps v)
          \<and> score (winner K gt take_max_score (sort_predictions K ps) v)
              = Max (score ` set (group_rows ps v)))"
proof -
  let ?S = "sort_predictions K ps"
  have "winner K gt take_max_score ?S v = hd (group_rows ?S v)
      \<and> winner K gt take_max_score ?S v \<in> set (group_rows ps v)
      \<and> score (winner K gt take_max_score ?S v) = Max (score ` set (group_rows ps v))"
    if "group_rows ps v \<noteq> []"
  proof -
    from that have ne: "group_rows ?S v \<noteq> []"
      by (simp add: group_rows_sorted_Nil [OF srt])
    note top = winner_take_max_score [OF sort_predictions_descending [OF srt] ne]
    from ne have "hd (group_rows ?S v) \<in> set (group_rows ?S v)" by simp
    then have mem: "hd (group_rows ?S v) \<in> set (group_rows ps v)"
      by (simp only: set_group_rows_sorted [OF srt])
    from top(2) have "\<forall>q \<in> set (group_rows ps v). score q \<le> score (hd (group_rows ?S v))"
      by (simp only: set_group_rows_sorted [OF srt])
    with mem have "Max (score ` set (group_rows ps v)) = score (hd (group_rows ?S v))"
      by (intro Max_eqI) auto
    with top(1) [of K gt] mem show ?thesis by simp
  qed
  with sort_predictions_descending [OF srt, of ps] set_sort_predictions [OF srt, of ps]
    length_sort_predictions [OF srt, of ps]
  show ?thesis by blast
qed

theorem descending_sort_first_sorted_wins_witness:
  "is_argsort (argsort example_K)
   \<and> group_rows tie_prediction 0 \<noteq> []
   \<and> winner example_K [\<lparr>video_id = 0, response_track = 0\<rparr>] take_max_score
        (sort_predictions example_K tie_prediction) 0
     = hd (group_rows (sort_predictions example_K tie_prediction) 0)
   \<and> hd (group_rows (sort_predictions example_K tie_prediction) 0)
     = \<lparr>video_id = 0, response_track = 2, score = 0.5\<rparr>
   \<and> Max (score ` set (group_rows tie_prediction 0)) = 0.5"
proof -
  have s: "is_argsort (argsort example_K)"
    by (simp add: example_K_def is_argsort_stable)
  have h: "group_rows tie_prediction 0 \<noteq> []"
    by (simp add: group_rows_def tie_prediction_def)
  have l: "hd (group_rows (sort_predictions example_K tie_prediction) 0)
     = \<lparr>video_id = 0, response_track = 2, score = 0.5\<rparr>"
    by code_simp
  have m: "Max (score ` set (group_rows tie_prediction 0)) = 0.5"
    by (simp add: group_rows_def tie_prediction_def)
  from descending_sort_first_sorted_wins [OF s, of tie_prediction 0
      "[\<lparr>video_id = 0, response_track = 0\<rparr>]"] h
  have "winner example_K [\<lparr>video_id = 0, response_track = 0\<rparr>] take_max_score
        (sort_predictions example_K tie_prediction) 0
     = hd (group_rows (sort_predictions example_K tie_prediction) 0)"
    by blast
  with s h l m show ?thesis by simp
qed

text \<open>
  C9. \<open>evaluate\<close> calls \<open>compute_tracking_metrics\<close> once, with the class attribute
  \<open>iou_thresholds\<close>, the three thresholds 0.5, 0.75 and 0.95. The grid of 10 values is
  the default of a parameter that \<open>evaluate\<close> always passes, so it is never used: on the
  scenario of C1 the object holds one vector, of three entries, and one mean.

  What holds: \<open>evaluate\<close> fails exactly when that one call fails, and otherwise stores
  the dictionary of the call, whose only vector has three entries, and the mean of the
  three.
\<close>

theorem evaluate_counterexample:
  "length default_iou_thresholds = 10
   \<and> iou_thresholds = [0.5, 0.75, 0.95]
   \<and> evaluate example_K (init example_K [0] [[1, 2]] take_max_score False)
     = Inr \<lparr>self_ground_truth = [\<lparr>video_id = 0, response_track = 0\<rparr>],
            self_prediction =
              [\<lparr>video_id = 0, response_track = 1, score = 0.9\<rparr>,
               \<lparr>video_id = 0, response_track = 2, score = 0.3\<rparr>],
            self_mode = take_max_score, self_suffix = ''(max scr)'',
            self_ignore_iou_averaging = False,
            self_tracking_metrics = Some [(''% recovery'', [50, 0, 0])],
            self_average_tracking_metrics = Some [(''% recovery'', 50 / 3)]\<rparr>"
  by code_simp

theorem evaluate_one_grid:
  "(case compute_tracking_metrics K (self_ground_truth self) (self_prediction self)
           [0.5, 0.75, 0.95] (self_mode self) of
      Inl e \<Rightarrow> evaluate K self = Inl e
    | Inr d \<Rightarrow>
        (\<exists>r. d = [(''% recovery'', r)] \<and> length r = 3
           \<and> evaluate K self =
               Inr (self\<lparr>self_tracking_metrics := Some [(''% recovery'', r)],
                         self_average_tracking_metrics :=
                           Some [(''% recovery'', (r ! 0 + r ! 1 + r ! 2) / 3)]\<rparr>)))"
proof (cases "compute_tracking_metrics K (self_ground_truth self) (self_prediction self)
           [0.5, 0.75, 0.95] (self_mode self)")
  case (Inl e)
  then show ?thesis by (simp add: evaluate_def iou_thresholds_def)
next
  case (Inr d)
  from compute_tracking_metrics_shape [OF Inr]
  obtain r where r: "d = [(''% recovery'', r)]" "length r = 3" by auto
  then obtain a b c where "r = [a, b, c]"
    by (cases r; cases "tl r"; cases "tl (tl r)") auto
  with r Inr show ?thesis
    by (simp add: evaluate_def iou_thresholds_def mean_def)
qed

text \<open>
  C10. After the scoring loop, the row of \<open>st_iou\<close> is the same at any two thresholds
  of the grid, so the index that the mode \<open>take_max_stiou\<close> selects in the group of a
  video is the same at both.
\<close>

theorem stiou_winner_same_at_every_threshold:
  assumes srt: "is_argsort (argsort K)"
    and run: "scoring_pass K gt ths 0 (sort_predictions K ps)
                  (initial_stats (length ths) (length (sort_predictions K ps))) = Inr st"
    and grp: "get_group (sort_predictions K ps) v = Inr grp"
    and t1: "t1 < length ths" and t2: "t2 < length ths"
  shows "(\<forall>i < length ps. st_iou st ! t1 ! i = st_iou st ! t2 ! i)
       \<and> select_max_idx take_max_stiou (st_iou st) t1 (map (\<lambda>(i, r). score r) grp) (map fst grp)
         = select_max_idx take_max_stiou (st_iou st) t2 (map (\<lambda>(i, r). score r) grp) (map fst grp)"
proof -
  from scoring_pass_scored [OF run _ scored_initial]
  have sc: "scored K gt ths (sort_predictions K ps) (length (sort_predictions K ps)) st" by simp
  with t1 t2 have cells: "\<forall>i < length ps. st_iou st ! t1 ! i = st_iou st ! t2 ! i"
    by (simp add: scored_def length_sort_predictions [OF srt])
  from group_indices_bound [OF grp]
  have "\<forall>i \<in> set (map fst grp). i < length ps" by (simp add: length_sort_predictions [OF srt])
  with cells have "map (\<lambda>i. st_iou st ! t1 ! i) (map fst grp) =
      map (\<lambda>i. st_iou st ! t2 ! i) (map fst grp)"
    by (intro map_cong refl) blast
  then have "select_max_idx take_max_stiou (st_iou st) t1 (map (\<lambda>(i, r). score r) grp) (map fst grp)
         = select_max_idx take_max_stiou (st_iou st) t2 (map (\<lambda>(i, r). score r) grp) (map fst grp)"
    by (simp only: select_max_idx_def mode.case)
  with cells show ?thesis by simp
qed

theorem stiou_winner_same_at_every_threshold_witness:
  "is_argsort (argsort example_K)
   \<and> scoring_pass example_K [\<lparr>video_id = 0, response_track = 0\<rparr>] [0.5, 0.75] 0
      (sort_predictions example_K [\<lparr>video_id = 0, response_track = 1, score = 0.9\<rparr>,
                         \<lparr>video_id = 0, response_track = 2, score = 0.3\<rparr>])
      (initial_stats (length [0.5, 0.75 :: real])
         (length (sort_predictions example_K [\<lparr>video_id = 0, response_track = 1 :: nat, score = 0.9\<rparr>,
                                    \<lparr>video_id = 0, response_track = 2, score = 0.3\<rparr>])))
     = Inr \<lparr>st_iou = [[0.3, 0.8], [0.3, 0.8]], iou_sum = [[3, 8], [0, 8]],
            track_acc_count = [[5, 10], [0, 10]], track_total_count = [[10, 10], [10, 10]]\<rparr>
   \<and> get_group (sort_predictions example_K [\<lparr>video_id = 0, response_track = 1 :: nat, score = 0.9\<rparr>,
                                  \<lparr>video_id = 0, response_track = 2, score = 0.3\<rparr>]) 0
     = Inr [(0, \<lparr>video_id = 0, response_track = 1, score = 0.9\<rparr>),
            (1, \<lparr>video_id = 0, response_track = 2, score = 0.3\<rparr>)]
   \<and> (0::nat) < length [0.5, 0.75 :: real] \<and> (1::nat) < length [0.5, 0.75 :: real]
   \<and> select_max_idx take_max_stiou [[0.3, 0.8], [0.3, 0.8]] 0 [0.9, 0.3] [0, 1] = 1
   \<and> select_max_idx take_max_stiou [[0.3, 0.8], [0.3, 0.8]] 1 [0.9, 0.3] [0, 1] = 1"
proof -
  have run: "scoring_pass example_K [\<lparr>video_id = 0, response_track = 0\<rparr>] [0.5, 0.75] 0
      (sort_predictions example_K [\<lparr>video_id = 0, response_track = 1, score = 0.9\<rparr>,
                         \<lparr>video_id = 0, response_track = 2, score = 0.3\<rparr>])
      (initial_stats (length [0.5, 0.75 :: real])
         (length (sort_predictions example_K [\<lparr>video_id = 0, response_track = 1 :: nat, score = 0.9\<rparr>,
                                    \<lparr>video_id = 0, response_track = 2, score = 0.3\<rparr>])))
     = Inr \<lparr>st_iou = [[0.3, 0.8], [0.3, 0.8]], iou_sum = [[3, 8], [0, 8]],
            track_acc_count = [[5, 10], [0, 10]], track_total_count = [[10, 10], [10, 10]]\<rparr>"
    by code_simp
  have grp: "get_group (sort_predictions example_K [\<lparr>video_id = 0, response_track = 1 :: nat, score = 0.9\<rparr>,
                                  \<lparr>video_id = 0, response_track = 2, score = 0.3\<rparr>]) 0
     = Inr [(0, \<lparr>video_id = 0, response_track = 1, score = 0.9\<rparr>),
            (1, \<lparr>video_id = 0, response_track = 2, score = 0.3\<rparr>)]"
    by code_simp
  have one: "select_max_idx take_max_stiou [[0.3, 0.8], [0.3, 0.8]] 1 [0.9, 0.3] [0, 1] = 1"
    by code_simp
  have s: "is_argsort (argsort example_K)"
    by (simp add: example_K_def is_argsort_stable)
  from stiou_winner_same_at_every_threshold [OF s run grp, of 0 1] s run grp one
  show ?thesis by simp
qed

end
